theory Spec2Isabelle
  imports Main
begin

section \<open>Strings of the JavaScript runtime\<close>

text \<open>
  A string is a list of 8-bit characters: the UTF-8 form of the text. The program only
  inspects ASCII characters (separators, braces, letters and digits), so every other
  byte is carried along unchanged.

  \<open>join\<close> is \<open>Array.prototype.join\<close>, \<open>split_on\<close> is \<open>String.prototype.split\<close>
  with a one-character separator, and \<open>startsWith\<close> is \<open>String.prototype.startsWith\<close>.
\<close>

fun join :: "string \<Rightarrow> string list \<Rightarrow> string" where
  "join sep [] = []"
| "join sep [x] = x"
| "join sep (x # y # ys) = x @ sep @ join sep (y # ys)"

fun split_on :: "char \<Rightarrow> string \<Rightarrow> string list" where
  "split_on d [] = [[]]"
| "split_on d (c # cs) =
     (if c = d then [] # split_on d cs
      else (case split_on d cs of
              [] \<Rightarrow> [[c]]
            | w # ws \<Rightarrow> (c # w) # ws))"

fun startsWith :: "string \<Rightarrow> string \<Rightarrow> bool" where
  "startsWith s [] = True"
| "startsWith [] (p # ps) = False"
| "startsWith (c # cs) (p # ps) = (c = p \<and> startsWith cs ps)"

definition isAlnum :: "char \<Rightarrow> bool" where
  "isAlnum c =
     (let n = (of_char c :: nat)
      in (48 \<le> n \<and> n \<le> 57) \<or> (65 \<le> n \<and> n \<le> 90) \<or> (97 \<le> n \<and> n \<le> 122))"

fun str_includes :: "string \<Rightarrow> string \<Rightarrow> bool" where
  "str_includes [] pat = (pat = [])"
| "str_includes (c # cs) pat = (startsWith (c # cs) pat \<or> str_includes cs pat)"

text \<open>
  \<open>toLowerCase\<close> and \<open>toUpperCase\<close> on the ASCII letters; other bytes stay as they are
  (the Unicode case mappings of non-ASCII text are outside this model).
\<close>

definition lower_char :: "char \<Rightarrow> char" where
  "lower_char c =
     (case map_of (zip ''ABCDEFGHIJKLMNOPQRSTUVWXYZ'' ''abcdefghijklmnopqrstuvwxyz'') c of
        Some d \<Rightarrow> d
      | None \<Rightarrow> c)"

definition upper_char :: "char \<Rightarrow> char" where
  "upper_char c =
     (case map_of (zip ''abcdefghijklmnopqrstuvwxyz'' ''ABCDEFGHIJKLMNOPQRSTUVWXYZ'') c of
        Some d \<Rightarrow> d
      | None \<Rightarrow> c)"

definition toLowerCase :: "string \<Rightarrow> string" where
  "toLowerCase s = map lower_char s"

definition toUpperCase :: "string \<Rightarrow> string" where
  "toUpperCase s = map upper_char s"

text \<open>
  \<open>String.prototype.replace\<close> with a string pattern: the first occurrence of the pattern
  is replaced, the rest of the text is kept. (The \<open>$\<close> patterns of the replacement text
  play no role: the only caller passes the output of \<open>encodeURIComponent\<close>, which
  contains no \<open>$\<close>.)
\<close>

fun replace_first :: "string \<Rightarrow> string \<Rightarrow> string \<Rightarrow> string" where
  "replace_first pat rep [] = (if pat = [] then rep else [])"
| "replace_first pat rep (c # cs) =
     (if startsWith (c # cs) pat then rep @ drop (length pat) (c # cs)
      else c # replace_first pat rep cs)"

text \<open>Decimal rendering of numbers, as template literals and \<open>String\<close> produce it.\<close>

definition digit_char :: "nat \<Rightarrow> char" where
  "digit_char n = ''0123456789'' ! n"

fun show_nat :: "nat \<Rightarrow> string" where
  "show_nat n =
     (if n < 10 then [digit_char n] else show_nat (n div 10) @ [digit_char (n mod 10)])"

declare show_nat.simps [simp del]

definition show_int :: "int \<Rightarrow> string" where
  "show_int i = (if i < 0 then CHR ''-'' # show_nat (nat (- i)) else show_nat (nat i))"

text \<open>
  \<open>encodeURIComponent\<close>: every byte of the UTF-8 form is written as \<open>%XX\<close> (upper-case
  hexadecimal) unless it is a letter, a digit or one of \<open>- _ . ! ~ * ' ( )\<close>.
\<close>

definition hex_upper :: "nat \<Rightarrow> char" where
  "hex_upper n = ''0123456789ABCDEF'' ! n"

definition hex_lower :: "nat \<Rightarrow> char" where
  "hex_lower n = ''0123456789abcdef'' ! n"

definition unreserved :: "char \<Rightarrow> bool" where
  "unreserved c = (isAlnum c \<or> c \<in> set (''-_.!~*()'' @ [CHR 0x27]))"

definition encode_char :: "char \<Rightarrow> string" where
  "encode_char c =
     (if unreserved c then [c]
      else [CHR ''%'', hex_upper ((of_char c :: nat) div 16), hex_upper ((of_char c :: nat) mod 16)])"

definition encodeURIComponent :: "string \<Rightarrow> string" where
  "encodeURIComponent s = concat (map encode_char s)"

text \<open>
  \<open>Buffer.from(s).toString('base64')\<close>: the standard alphabet, three bytes to four
  characters, padded with \<open>=\<close>.
\<close>

definition b64_char :: "nat \<Rightarrow> char" where
  "b64_char n = ''ABCDEFGHIJKLMNOPQRSTUVWXYZabcdefghijklmnopqrstuvwxyz0123456789+/'' ! n"

fun base64 :: "nat list \<Rightarrow> string" where
  "base64 [] = []"
| "base64 [a] = [b64_char (a div 4), b64_char ((a mod 4) * 16), CHR ''='', CHR ''='']"
| "base64 [a, b] =
     [b64_char (a div 4), b64_char ((a mod 4) * 16 + b div 16), b64_char ((b mod 16) * 4),
      CHR ''='']"
| "base64 (a # b # c # rest) =
     [b64_char (a div 4), b64_char ((a mod 4) * 16 + b div 16),
      b64_char ((b mod 16) * 4 + c div 64), b64_char (c mod 64)] @ base64 rest"

definition toBase64 :: "string \<Rightarrow> string" where
  "toBase64 s = base64 (map of_char s)"

section \<open>JSON values\<close>

text \<open>
  The values that reach the program from parsed documents, tool arguments and response
  payloads. An object is the list of its properties in enumeration order. A number is
  an integer, rendered in decimal as JavaScript renders the integers it holds exactly;
  fractions and the exponent form of very large numbers are outside the model, and no
  statement below depends on them. \<open>undefined\<close> is the \<open>None\<close> of a \<open>json option\<close>.
\<close>

datatype json =
    JNull
  | JBool bool
  | JNum int
  | JStr string
  | JArr "json list"
  | JObj "(string \<times> json) list"

text \<open>JavaScript truthiness of a value that may be \<open>undefined\<close>.\<close>

fun truthy :: "json \<Rightarrow> bool" where
  "truthy JNull = False"
| "truthy (JBool b) = b"
| "truthy (JNum n) = (n \<noteq> 0)"
| "truthy (JStr s) = (s \<noteq> [])"
| "truthy (JArr xs) = True"
| "truthy (JObj kvs) = True"

definition truthy_json :: "json option \<Rightarrow> bool" where
  "truthy_json v = (case v of None \<Rightarrow> False | Some j \<Rightarrow> truthy j)"

definition truthy_str :: "string option \<Rightarrow> bool" where
  "truthy_str s = (case s of None \<Rightarrow> False | Some t \<Rightarrow> t \<noteq> [])"

text \<open>
  \<open>String(v)\<close> and template interpolation: an array is its elements joined by commas
  (\<open>null\<close> elements as the empty text), an object is \<open>[object Object]\<close>.
\<close>

fun js_String :: "json \<Rightarrow> string" where
  "js_String JNull = ''null''"
| "js_String (JBool b) = (if b then ''true'' else ''false'')"
| "js_String (JNum n) = show_int n"
| "js_String (JStr s) = s"
| "js_String (JArr xs) = join '','' (map (\<lambda>x. if x = JNull then [] else js_String x) xs)"
| "js_String (JObj kvs) = ''[object Object]''"

text \<open>
  \<open>JSON.stringify(value, null, gap)\<close>. \<open>quoteJSON\<close> is the string quoting: the quote
  and the backslash are escaped, control characters are written with their short escape
  or as \<open>\u00XX\<close>. \<open>serialize gap indent v\<close> is the serialisation of \<open>v\<close> at the current
  indentation; with a non-empty gap every element of a non-empty array or object goes
  on a line of its own, one gap deeper.
\<close>

definition quote_char :: "char \<Rightarrow> string" where
  "quote_char c =
     (if c = CHR 0x22 then [CHR 0x5C, CHR 0x22]
      else if c = CHR 0x5C then [CHR 0x5C, CHR 0x5C]
      else if c = CHR 0x08 then [CHR 0x5C, CHR ''b'']
      else if c = CHR 0x09 then [CHR 0x5C, CHR ''t'']
      else if c = CHR 0x0A then [CHR 0x5C, CHR ''n'']
      else if c = CHR 0x0C then [CHR 0x5C, CHR ''f'']
      else if c = CHR 0x0D then [CHR 0x5C, CHR ''r'']
      else if (of_char c :: nat) < 32
        then [CHR 0x5C, CHR ''u'', CHR ''0'', CHR ''0'',
              hex_lower ((of_char c :: nat) div 16), hex_lower ((of_char c :: nat) mod 16)]
      else [c])"

definition quoteJSON :: "string \<Rightarrow> string" where
  "quoteJSON s = [CHR 0x22] @ concat (map quote_char s) @ [CHR 0x22]"

fun serialize :: "string \<Rightarrow> string \<Rightarrow> json \<Rightarrow> string" where
  "serialize gap ind JNull = ''null''"
| "serialize gap ind (JBool b) = (if b then ''true'' else ''false'')"
| "serialize gap ind (JNum n) = show_int n"
| "serialize gap ind (JStr s) = quoteJSON s"
| "serialize gap ind (JArr xs) =
     (if xs = [] then ''[]''
      else if gap = [] then ''['' @ join '','' (map (serialize gap (ind @ gap)) xs) @ '']''
      else ''['' @ [CHR 0x0A] @ ind @ gap
           @ join ('','' @ [CHR 0x0A] @ ind @ gap) (map (serialize gap (ind @ gap)) xs)
           @ [CHR 0x0A] @ ind @ '']'')"
| "serialize gap ind (JObj kvs) =
     (if kvs = [] then ''{}''
      else if gap = []
        then ''{''
           @ join '','' (map (\<lambda>(k, v). quoteJSON k @ '':'' @ serialize gap (ind @ gap) v) kvs)
           @ ''}''
      else ''{'' @ [CHR 0x0A] @ ind @ gap
           @ join ('','' @ [CHR 0x0A] @ ind @ gap)
               (map (\<lambda>(k, v). quoteJSON k @ '': '' @ serialize gap (ind @ gap) v) kvs)
           @ [CHR 0x0A] @ ind @ ''}'')"

text \<open>\<open>JSON.stringify(v, null, 2)\<close>: the gap is two spaces.\<close>

definition stringify2 :: "json \<Rightarrow> string" where
  "stringify2 v = serialize ''  '' [] v"

text \<open>
  Property assignment \<open>obj[k] = v\<close> on an object kept as a property list: an existing
  property keeps its place, a new one goes to the end.
\<close>

fun obj_set :: "string \<Rightarrow> 'v \<Rightarrow> (string \<times> 'v) list \<Rightarrow> (string \<times> 'v) list" where
  "obj_set k v [] = [(k, v)]"
| "obj_set k v (p # ps) = (if fst p = k then (k, v) # ps else p # obj_set k v ps)"

section \<open>The data model (types.ts)\<close>

text \<open>
  The records of the program; the field names carry a prefix, since a record field is
  a constant of the theory: \<open>p_\<close> for a parameter of a tool, \<open>r_\<close> for a parameter
  object as it stands in the document (with \<open>r_ref\<close> for its \<open>$ref\<close> property),
  \<open>t_\<close> for a tool, \<open>op_\<close> and \<open>pi_\<close> for an operation and a path item of the
  document, \<open>a_\<close> for the authentication descriptor of one API.
\<close>

record ToolParameter =
  p_name :: string
  p_in :: string
  p_required :: bool
  p_schema :: json
  p_description :: "string option"

record RawParam =
  r_ref :: "string option"
  r_in :: "string option"
  r_name :: "string option"
  r_schema :: "json option"
  r_required :: "bool option"
  r_description :: "string option"

record GeneratedTool =
  t_name :: string
  t_description :: string
  t_operationId :: "string option"
  t_method :: string
  t_path :: string
  t_parameters :: "ToolParameter list"
  t_requestBody :: "json option"
  t_responses :: "json option"
  t_security :: json
  t_baseUrl :: string

record Operation =
  op_operationId :: "string option"
  op_summary :: "string option"
  op_description :: "string option"
  op_parameters :: "RawParam list option"
  op_requestBody :: "json option"
  op_responses :: "json option"
  op_security :: "json option"

record PathItem =
  pi_operations :: "(string \<times> Operation) list"
  pi_parameters :: "RawParam list option"

record OpenAPIDoc =
  d_servers :: "string list option"
  d_paths :: "(string \<times> PathItem option) list option"

record AuthEntry =
  a_type :: string
  a_token :: "string option"
  a_headerName :: "string option"
  a_username :: "string option"
  a_password :: "string option"

record ToolExecutionContext =
  x_apiName :: string
  x_tool :: GeneratedTool
  x_authConfig :: "AuthEntry option"

section \<open>Tool names (openapi-parser.ts, generateToolName)\<close>

text \<open>
  \<open>operation.operationId\<close> is a string or absent; the test \<open>if (operation.operationId)\<close>
  is JavaScript truthiness, which a string passes when it is not empty.
  \<open>pathParts.join('_') || 'root'\<close> takes \<open>'root'\<close> whenever the joined string is empty.
\<close>

definition pathParts :: "string \<Rightarrow> string list" where
  "pathParts pathTemplate =
     map (filter isAlnum)
       (filter (\<lambda>part. part \<noteq> [] \<and> \<not> startsWith part ''{'') (split_on CHR ''/'' pathTemplate))"

definition generateToolName :: "string \<Rightarrow> string option \<Rightarrow> string \<Rightarrow> string \<Rightarrow> string" where
  "generateToolName apiName operationId pathTemplate method =
     (if truthy_str operationId then apiName @ ''_'' @ the operationId
      else
        (let pathName = (if join ''_'' (pathParts pathTemplate) = [] then ''root''
                         else join ''_'' (pathParts pathTemplate))
         in apiName @ ''_'' @ method @ ''_'' @ pathName))"


text \<open>The claim's own reading of the path name: \<open>root\<close> only when no segment remains.\<close>

definition spec_pathName :: "string \<Rightarrow> string" where
  "spec_pathName pathTemplate =
     (if pathParts pathTemplate = [] then ''root'' else join ''_'' (pathParts pathTemplate))"

section \<open>Parameters and tools (openapi-parser.ts)\<close>

text \<open>
  \<open>extractParameters\<close>: the loop over the declared parameter objects, pushing onto the
  result. An object with a \<open>$ref\<close> property is skipped; an object is kept when its
  \<open>in\<close>, \<open>name\<close> and \<open>schema\<close> are all truthy. \<open>param.required || param.in === 'path'\<close>
  is the \<open>required\<close> flag.
\<close>

definition or_undefined :: "bool option \<Rightarrow> bool" where
  "or_undefined b = (case b of None \<Rightarrow> False | Some x \<Rightarrow> x)"

definition toToolParameter :: "RawParam \<Rightarrow> ToolParameter" where
  "toToolParameter param =
     \<lparr> p_name = (case r_name param of Some n \<Rightarrow> n | None \<Rightarrow> []),
       p_in = (case r_in param of Some l \<Rightarrow> l | None \<Rightarrow> []),
       p_required = (or_undefined (r_required param) \<or> r_in param = Some ''path''),
       p_schema = (case r_schema param of Some sc \<Rightarrow> sc | None \<Rightarrow> JNull),
       p_description = r_description param \<rparr>"

fun extract_loop :: "ToolParameter list \<Rightarrow> RawParam list \<Rightarrow> ToolParameter list" where
  "extract_loop parameters [] = parameters"
| "extract_loop parameters (paramRef # rest) =
     (if r_ref paramRef \<noteq> None then extract_loop parameters rest
      else if truthy_str (r_in paramRef) \<and> truthy_str (r_name paramRef)
              \<and> truthy_json (r_schema paramRef)
        then extract_loop (parameters @ [toToolParameter paramRef]) rest
      else extract_loop parameters rest)"

definition extractParameters :: "RawParam list \<Rightarrow> ToolParameter list" where
  "extractParameters paramRefs = extract_loop [] paramRefs"

definition getBaseUrl :: "OpenAPIDoc \<Rightarrow> string" where
  "getBaseUrl spec =
     (case d_servers spec of
        Some (url # others) \<Rightarrow> url
      | _ \<Rightarrow> ''https://api.example.com'')"

definition or_list :: "'a list option \<Rightarrow> 'a list" where
  "or_list xs = (case xs of None \<Rightarrow> [] | Some ys \<Rightarrow> ys)"

definition createToolFromOperation ::
  "string \<Rightarrow> string \<Rightarrow> string \<Rightarrow> Operation \<Rightarrow> string \<Rightarrow> RawParam list option \<Rightarrow> GeneratedTool option"
where
  "createToolFromOperation apiName pathTemplate method operation baseUrl pathLevelParams =
     (let toolName = generateToolName apiName (op_operationId operation) pathTemplate method;
          description =
            (if truthy_str (op_summary operation) then the (op_summary operation)
             else if truthy_str (op_description operation) then the (op_description operation)
             else toUpperCase method @ '' '' @ pathTemplate);
          allParams = or_list pathLevelParams @ or_list (op_parameters operation);
          parameters = extractParameters allParams
      in Some \<lparr> t_name = toolName,
                t_description = description,
                t_operationId = op_operationId operation,
                t_method = toUpperCase method,
                t_path = pathTemplate,
                t_parameters = parameters,
                t_requestBody = op_requestBody operation,
                t_responses = op_responses operation,
                t_security = (if truthy_json (op_security operation)
                              then the (op_security operation) else JArr []),
                t_baseUrl = baseUrl \<rparr>)"

definition methods :: "string list" where
  "methods = [''get'', ''post'', ''put'', ''patch'', ''delete'', ''head'', ''options'']"

text \<open>
  \<open>generateToolsFromSpec\<close>: for every entry of \<open>paths\<close> and each of the seven methods in
  their fixed order, the operation stored under the method's name (if any) gives one
  tool. A path entry that is not an object (\<open>None\<close>) is skipped.
\<close>

fun methods_loop ::
  "string \<Rightarrow> string \<Rightarrow> PathItem \<Rightarrow> string \<Rightarrow> GeneratedTool list \<Rightarrow> string list \<Rightarrow> GeneratedTool list"
where
  "methods_loop apiName pathTemplate pathItem baseUrl tools [] = tools"
| "methods_loop apiName pathTemplate pathItem baseUrl tools (method # rest) =
     (case map_of (pi_operations pathItem) method of
        None \<Rightarrow> methods_loop apiName pathTemplate pathItem baseUrl tools rest
      | Some operation \<Rightarrow>
          (case createToolFromOperation apiName pathTemplate method operation baseUrl
                  (pi_parameters pathItem) of
             Some tool \<Rightarrow> methods_loop apiName pathTemplate pathItem baseUrl (tools @ [tool]) rest
           | None \<Rightarrow> methods_loop apiName pathTemplate pathItem baseUrl tools rest))"

fun paths_loop ::
  "string \<Rightarrow> string \<Rightarrow> GeneratedTool list \<Rightarrow> (string \<times> PathItem option) list \<Rightarrow> GeneratedTool list"
where
  "paths_loop apiName baseUrl tools [] = tools"
| "paths_loop apiName baseUrl tools ((pathTemplate, entry) # rest) =
     (case entry of
        None \<Rightarrow> paths_loop apiName baseUrl tools rest
      | Some pathItem \<Rightarrow>
          paths_loop apiName baseUrl
            (methods_loop apiName pathTemplate pathItem baseUrl tools methods) rest)"

definition generateToolsFromSpec :: "OpenAPIDoc \<Rightarrow> string \<Rightarrow> GeneratedTool list" where
  "generateToolsFromSpec spec apiName =
     (case d_paths spec of
        None \<Rightarrow> []
      | Some paths \<Rightarrow> paths_loop apiName (getBaseUrl spec) [] paths)"

section \<open>Credentials (auth.ts)\<close>

text \<open>
  \<open>match_suffix suffix key\<close> is group 1 of \<open>key.match(/^(.+)SUFFIX$/)\<close>: the key must end
  with the suffix, and what stands before it must be non-empty and free of line
  terminators (which \<open>.\<close> does not match: LF, CR, and U+2028 and U+2029 in their UTF-8
  form).
\<close>

definition no_line_terminator :: "string \<Rightarrow> bool" where
  "no_line_terminator s =
     (CHR 0x0A \<notin> set s \<and> CHR 0x0D \<notin> set s
      \<and> \<not> str_includes s [CHR 0xE2, CHR 0x80, CHR 0xA8]
      \<and> \<not> str_includes s [CHR 0xE2, CHR 0x80, CHR 0xA9])"

definition match_suffix :: "string \<Rightarrow> string \<Rightarrow> string option" where
  "match_suffix suffix key =
     (let n = length key - length suffix
      in if length suffix < length key \<and> drop n key = suffix \<and> no_line_terminator (take n key)
         then Some (take n key) else None)"

datatype config_key = Token | Username | Password

text \<open>
  The chain of pattern tests of \<open>loadAuthConfig\<close> on one key, in the order of the
  source: the API name (lowercased), the authentication type and the field to store.
\<close>

definition classify :: "string \<Rightarrow> (string \<times> string \<times> config_key) option" where
  "classify key =
     (case match_suffix ''_BEARER_TOKEN'' key of
        Some m \<Rightarrow> Some (toLowerCase m, ''bearer'', Token)
      | None \<Rightarrow>
     (case match_suffix ''_API_KEY'' key of
        Some m \<Rightarrow> Some (toLowerCase m, ''apiKey'', Token)
      | None \<Rightarrow>
     (case (if str_includes key ''BEARER'' then None else match_suffix ''_TOKEN'' key) of
        Some m \<Rightarrow> Some (toLowerCase m, ''bearer'', Token)
      | None \<Rightarrow>
     (case match_suffix ''_USERNAME'' key of
        Some m \<Rightarrow> Some (toLowerCase m, ''basic'', Username)
      | None \<Rightarrow>
     (case match_suffix ''_PASSWORD'' key of
        Some m \<Rightarrow> Some (toLowerCase m, ''basic'', Password)
      | None \<Rightarrow> None)))))"

definition set_field :: "config_key \<Rightarrow> string \<Rightarrow> AuthEntry \<Rightarrow> AuthEntry" where
  "set_field k v e =
     (case k of
        Token \<Rightarrow> e\<lparr>a_token := Some v\<rparr>
      | Username \<Rightarrow> e\<lparr>a_username := Some v\<rparr>
      | Password \<Rightarrow> e\<lparr>a_password := Some v\<rparr>)"

text \<open>
  One round of the loop over the environment entries. \<open>authConfig\<close> is the map from API
  name to descriptor (API names that are inherited properties of every JavaScript
  object, such as \<open>constructor\<close>, are not told apart from other names here).
  \<open>store_entry\<close> is what the round does to the descriptor of the API, once it exists:
  the type becomes \<open>bearer\<close> if the entry is a bearer entry, the value is stored under
  the field, and an API-key entry sets the header name unless one is set.
\<close>

definition fresh_entry :: "string \<Rightarrow> AuthEntry" where
  "fresh_entry authType =
     \<lparr> a_type = authType, a_token = None, a_headerName = None,
       a_username = None, a_password = None \<rparr>"

definition store_entry :: "string \<Rightarrow> config_key \<Rightarrow> string \<Rightarrow> AuthEntry \<Rightarrow> AuthEntry" where
  "store_entry authType configKey val e0 =
     (let e1 = (if authType = ''bearer'' \<and> a_type e0 \<noteq> ''bearer''
                then e0\<lparr>a_type := authType\<rparr> else e0);
          e2 = set_field configKey val e1
      in if authType = ''apiKey'' \<and> \<not> truthy_str (a_headerName e2)
         then e2\<lparr>a_headerName := Some ''X-API-Key''\<rparr> else e2)"

definition auth_step :: "(string \<rightharpoonup> AuthEntry) \<Rightarrow> string \<times> string \<Rightarrow> (string \<rightharpoonup> AuthEntry)" where
  "auth_step authConfig entry =
     (if snd entry = [] then authConfig
      else
        (case classify (fst entry) of
           None \<Rightarrow> authConfig
         | Some (apiName, authType, configKey) \<Rightarrow>
             (if apiName = [] \<or> authType = [] then authConfig
              else
                authConfig(apiName \<mapsto>
                  store_entry authType configKey (snd entry)
                    (case authConfig apiName of
                       None \<Rightarrow> fresh_entry authType
                     | Some e \<Rightarrow> e)))))"

fun auth_loop :: "(string \<rightharpoonup> AuthEntry) \<Rightarrow> (string \<times> string) list \<Rightarrow> (string \<rightharpoonup> AuthEntry)" where
  "auth_loop authConfig [] = authConfig"
| "auth_loop authConfig (entry # rest) = auth_loop (auth_step authConfig entry) rest"

text \<open>
  \<open>loadAuthConfig\<close>, as a function of the environment entries in their enumeration
  order (the entries of the \<open>.env\<close> file have been merged into the environment by then).
\<close>

definition loadAuthConfig :: "(string \<times> string) list \<Rightarrow> (string \<rightharpoonup> AuthEntry)" where
  "loadAuthConfig env = auth_loop Map.empty env"

definition applyAuthentication ::
  "(string \<rightharpoonup> string) \<Rightarrow> AuthEntry option \<Rightarrow> (string \<rightharpoonup> string)"
where
  "applyAuthentication headers authConfig =
     (case authConfig of
        None \<Rightarrow> headers
      | Some a \<Rightarrow>
          (if a_type a = ''bearer'' then
             (if truthy_str (a_token a)
              then headers(''Authorization'' \<mapsto> ''Bearer '' @ the (a_token a))
              else headers)
           else if a_type a = ''apiKey'' then
             (if truthy_str (a_token a) \<and> truthy_str (a_headerName a)
              then headers(the (a_headerName a) \<mapsto> the (a_token a))
              else headers)
           else if a_type a = ''basic'' then
             (if truthy_str (a_username a) \<and> truthy_str (a_password a)
              then headers(''Authorization'' \<mapsto>
                     ''Basic '' @ toBase64 (the (a_username a) @ '':'' @ the (a_password a)))
              else headers)
           else headers))"

section \<open>Requests and responses (http-client.ts)\<close>

text \<open>
  The tool arguments are an object of JSON values, kept as its property list;
  \<open>args[k] !== undefined\<close> is \<open>map_of args k \<noteq> None\<close>. The request handed to the HTTP
  library is the record \<open>RequestConfig\<close> (fields \<open>c_\<close>); \<open>c_params\<close> and \<open>c_data\<close> are
  \<open>None\<close> when the property is not set. A response (fields \<open>s_\<close>) carries its headers
  in the order received; the execution context has the fields \<open>x_\<close>.
\<close>

record RequestConfig =
  c_method :: string
  c_url :: string
  c_headers :: "string \<rightharpoonup> string"
  c_timeout :: nat
  c_params :: "(string \<times> json) list option"
  c_data :: "json option"

record AxiosResponse =
  s_status :: nat
  s_statusText :: string
  s_headers :: "(string \<times> json) list"
  s_data :: "json option"

text \<open>
  What the \<open>try\<close> block can throw: an error of the HTTP library, with the status and
  payload of the server's response when there was one, and its message; any other
  \<open>Error\<close>, with its message; or a value that is not an \<open>Error\<close>.
\<close>

datatype thrown =
    AxiosError "(nat \<times> json option) option" string
  | OtherError string
  | NonError json

definition strip_trailing_slash :: "string \<Rightarrow> string" where
  "strip_trailing_slash s = (if s \<noteq> [] \<and> last s = CHR ''/'' then butlast s else s)"

definition buildUrl_step :: "(string \<times> json) list \<Rightarrow> ToolParameter \<Rightarrow> string \<Rightarrow> string" where
  "buildUrl_step args param url =
     (if p_in param = ''path'' then
        (case map_of args (p_name param) of
           Some v \<Rightarrow>
             replace_first (''{'' @ p_name param @ ''}'') (encodeURIComponent (js_String v)) url
         | None \<Rightarrow> url)
      else url)"

fun buildUrl_loop :: "(string \<times> json) list \<Rightarrow> string \<Rightarrow> ToolParameter list \<Rightarrow> string" where
  "buildUrl_loop args url [] = url"
| "buildUrl_loop args url (param # rest) = buildUrl_loop args (buildUrl_step args param url) rest"

definition buildUrl :: "GeneratedTool \<Rightarrow> (string \<times> json) list \<Rightarrow> string" where
  "buildUrl tool args =
     buildUrl_loop args (strip_trailing_slash (t_baseUrl tool) @ t_path tool) (t_parameters tool)"

fun addHeaderParameters ::
  "(string \<times> json) list \<Rightarrow> (string \<rightharpoonup> string) \<Rightarrow> ToolParameter list \<Rightarrow> (string \<rightharpoonup> string)"
where
  "addHeaderParameters args headers [] = headers"
| "addHeaderParameters args headers (param # rest) =
     addHeaderParameters args
       (if p_in param = ''header'' then
          (case map_of args (p_name param) of
             Some v \<Rightarrow> headers(p_name param \<mapsto> js_String v)
           | None \<Rightarrow> headers)
        else headers) rest"

fun query_loop ::
  "(string \<times> json) list \<Rightarrow> (string \<times> json) list \<Rightarrow> ToolParameter list \<Rightarrow> (string \<times> json) list"
where
  "query_loop args params [] = params"
| "query_loop args params (param # rest) =
     query_loop args
       (if p_in param = ''query'' then
          (case map_of args (p_name param) of
             Some v \<Rightarrow> obj_set (p_name param) v params
           | None \<Rightarrow> params)
        else params) rest"

definition buildQueryParameters :: "GeneratedTool \<Rightarrow> (string \<times> json) list \<Rightarrow> (string \<times> json) list" where
  "buildQueryParameters tool args = query_loop args [] (t_parameters tool)"

text \<open>
  \<open>buildRequestBody\<close> returns a value, \<open>null\<close> standing for "no body":
  \<open>buildRequestConfig\<close> sets \<open>data\<close> only when the value is not \<open>null\<close>.
\<close>

fun body_loop :: "string set \<Rightarrow> (string \<times> json) list \<Rightarrow> (string \<times> json) list \<Rightarrow> (string \<times> json) list" where
  "body_loop paramNames bodyArgs [] = bodyArgs"
| "body_loop paramNames bodyArgs ((key, val) # rest) =
     body_loop paramNames
       (if key \<notin> paramNames then obj_set key val bodyArgs else bodyArgs) rest"

definition buildRequestBody :: "GeneratedTool \<Rightarrow> (string \<times> json) list \<Rightarrow> json" where
  "buildRequestBody tool args =
     (if \<not> truthy_json (t_requestBody tool) then JNull
      else
        (case map_of args ''body'' of
           Some b \<Rightarrow> b
         | None \<Rightarrow>
             (case map_of args ''requestBody'' of
                Some b \<Rightarrow> b
              | None \<Rightarrow>
                  (let paramNames = set (map p_name (t_parameters tool));
                       bodyArgs = body_loop paramNames [] args
                   in if bodyArgs \<noteq> [] then JObj bodyArgs else JNull))))"

definition base_headers :: "string \<rightharpoonup> string" where
  "base_headers =
     [''Content-Type'' \<mapsto> ''application/json'', ''User-Agent'' \<mapsto> ''specbridge/1.0.2'']"

definition buildRequestConfig :: "ToolExecutionContext \<Rightarrow> (string \<times> json) list \<Rightarrow> RequestConfig" where
  "buildRequestConfig context args =
     (let tool = x_tool context;
          url = buildUrl tool args;
          headers = applyAuthentication base_headers (x_authConfig context);
          headers' = addHeaderParameters args headers (t_parameters tool);
          params = buildQueryParameters tool args;
          data = buildRequestBody tool args
      in \<lparr> c_method = toLowerCase (t_method tool),
           c_url = url,
           c_headers = headers',
           c_timeout = 30000,
           c_params = (if params \<noteq> [] then Some params else None),
           c_data = (if data \<noteq> JNull then Some data else None) \<rparr>)"

definition formatResponse :: "AxiosResponse \<Rightarrow> string" where
  "formatResponse response =
     (let headers =
            join ''\<newline>'' (map (\<lambda>(key, val). key @ '': '' @ js_String val) (s_headers response));
          body =
            (case s_data response of
               Some (JStr text) \<Rightarrow> text
             | Some JNull \<Rightarrow> ''(empty response)''
             | None \<Rightarrow> ''(empty response)''
             | Some v \<Rightarrow> stringify2 v)
      in ''Status: '' @ show_nat (s_status response) @ '' '' @ s_statusText response
         @ ''\<newline>\<newline>Headers:\<newline>'' @ headers @ ''\<newline>\<newline>Body:\<newline>'' @ body)"

text \<open>
  \<open>executeRequest\<close>. The HTTP library is the parameter \<open>axios\<close>: for a request it either
  resolves with a response or throws. The \<open>try\<close> block passes that on; the \<open>catch\<close> block
  turns whatever was thrown into a text, and the function returns it.
\<close>

definition try_block ::
  "(RequestConfig \<Rightarrow> thrown + AxiosResponse) \<Rightarrow> ToolExecutionContext \<Rightarrow> (string \<times> json) list
     \<Rightarrow> thrown + string"
where
  "try_block axios context args =
     (case axios (buildRequestConfig context args) of
        Inl error \<Rightarrow> Inl error
      | Inr response \<Rightarrow> Inr (formatResponse response))"

definition catch_block :: "thrown \<Rightarrow> string" where
  "catch_block error =
     (case error of
        AxiosError response msg \<Rightarrow>
          (let status = (case response of
                           Some (st, d) \<Rightarrow> if st \<noteq> 0 then show_nat st else ''Unknown''
                         | None \<Rightarrow> ''Unknown'');
               message = (case response of
                            Some (st, Some d) \<Rightarrow> if truthy d then d else JStr msg
                          | _ \<Rightarrow> JStr msg)
           in ''HTTP Error '' @ status @ '': '' @ stringify2 message)
      | OtherError msg \<Rightarrow> ''Request failed: '' @ msg
      | NonError v \<Rightarrow> ''Request failed: '' @ js_String v)"

definition executeRequest ::
  "(RequestConfig \<Rightarrow> thrown + AxiosResponse) \<Rightarrow> ToolExecutionContext \<Rightarrow> (string \<times> json) list
     \<Rightarrow> thrown + string"
where
  "executeRequest axios context args =
     (case try_block axios context args of
        Inr text \<Rightarrow> Inr text
      | Inl error \<Rightarrow> Inr (catch_block error))"

section \<open>Auxiliary notions and example inputs\<close>

text \<open>
  \<open>item_tools a p item b ms\<close>: the tools that \<open>createToolFromOperation\<close> gives for the
  operations that the path item \<open>item\<close> of path \<open>p\<close> stores under the methods \<open>ms\<close>;
  \<open>entry_tools a b e\<close>: the same for an entry of \<open>paths\<close> and the seven methods (none
  when the entry is not an object).
\<close>

definition item_tools ::
  "string \<Rightarrow> string \<Rightarrow> PathItem \<Rightarrow> string \<Rightarrow> string list \<Rightarrow> GeneratedTool set" where
  "item_tools a p item b ms =
     {t. \<exists>m \<in> set ms. \<exists>operation.
           map_of (pi_operations item) m = Some operation
           \<and> createToolFromOperation a p m operation b (pi_parameters item) = Some t}"

definition entry_tools ::
  "string \<Rightarrow> string \<Rightarrow> string \<times> PathItem option \<Rightarrow> GeneratedTool set" where
  "entry_tools a b e =
     (case snd e of None \<Rightarrow> {} | Some item \<Rightarrow> item_tools a (fst e) item b methods)"

text \<open>
  A document with one path, \<open>/a/{id}/b\<close>, and two operations on it: \<open>GET\<close> without
  an operationId and \<open>POST\<close> with the operationId \<open>createB\<close>; and the two tools compiled
  from it in the namespace \<open>ns\<close>.
\<close>

definition example_operation :: Operation where
  "example_operation =
     \<lparr> op_operationId = None, op_summary = None, op_description = None,
       op_parameters = None, op_requestBody = None, op_responses = None,
       op_security = None \<rparr>"

definition named_operation :: Operation where
  "named_operation = example_operation\<lparr> op_operationId := Some ''createB'' \<rparr>"

definition example_item :: PathItem where
  "example_item =
     \<lparr> pi_operations = [(''post'', named_operation), (''get'', example_operation)],
       pi_parameters = None \<rparr>"

definition example_doc :: OpenAPIDoc where
  "example_doc = \<lparr> d_servers = None, d_paths = Some [(''/a/{id}/b'', Some example_item)] \<rparr>"

definition example_tool :: GeneratedTool where
  "example_tool =
     \<lparr> t_name = ''ns_get_a_b'', t_description = ''GET /a/{id}/b'', t_operationId = None,
       t_method = ''GET'', t_path = ''/a/{id}/b'', t_parameters = [], t_requestBody = None,
       t_responses = None, t_security = JArr [], t_baseUrl = ''https://api.example.com'' \<rparr>"

definition named_tool :: GeneratedTool where
  "named_tool =
     example_tool\<lparr> t_name := ''ns_createB'', t_description := ''POST /a/{id}/b'',
                   t_operationId := Some ''createB'', t_method := ''POST'' \<rparr>"

text \<open>\<open>kept p\<close>: the test that lets \<open>extractParameters\<close> keep the parameter object \<open>p\<close>.\<close>

definition kept :: "RawParam \<Rightarrow> bool" where
  "kept p \<longleftrightarrow>
     r_ref p = None \<and> truthy_str (r_in p) \<and> truthy_str (r_name p) \<and> truthy_json (r_schema p)"

text \<open>
  Two parameter objects: a query parameter declared without a schema, and a path
  parameter declared with \<open>required: false\<close>; and an operation that declares both.
\<close>

definition schemaless_param :: RawParam where
  "schemaless_param =
     \<lparr> r_ref = None, r_in = Some ''query'', r_name = Some ''limit'', r_schema = None,
       r_required = None, r_description = None \<rparr>"

definition optional_path_param :: RawParam where
  "optional_path_param =
     \<lparr> r_ref = None, r_in = Some ''path'', r_name = Some ''id'',
       r_schema = Some (JObj [(''type'', JStr ''string'')]),
       r_required = Some False, r_description = None \<rparr>"

definition id_param :: ToolParameter where
  "id_param =
     \<lparr> p_name = ''id'', p_in = ''path'', p_required = True,
       p_schema = JObj [(''type'', JStr ''string'')], p_description = None \<rparr>"

definition two_param_operation :: Operation where
  "two_param_operation =
     \<lparr> op_operationId = Some ''getThing'', op_summary = None, op_description = None,
       op_parameters = Some [optional_path_param, schemaless_param], op_requestBody = None,
       op_responses = None, op_security = None \<rparr>"

definition two_param_tool :: GeneratedTool where
  "two_param_tool =
     \<lparr> t_name = ''ns_getThing'', t_description = ''GET /thing/{id}'',
       t_operationId = Some ''getThing'', t_method = ''GET'', t_path = ''/thing/{id}'',
       t_parameters = [id_param], t_requestBody = None, t_responses = None,
       t_security = JArr [], t_baseUrl = ''https://api.example.com'' \<rparr>"

text \<open>
  The invariant of the credential loop: a header name, once set, is \<open>X-API-Key\<close>, and a
  descriptor of type \<open>apiKey\<close> has that header name and a non-empty token.
\<close>

definition auth_ok :: "AuthEntry \<Rightarrow> bool" where
  "auth_ok d \<longleftrightarrow>
     (a_headerName d = None \<or> a_headerName d = Some ''X-API-Key'')
     \<and> (a_type d = ''apiKey'' \<longrightarrow>
          a_headerName d = Some ''X-API-Key'' \<and> (\<exists>t. a_token d = Some t \<and> t \<noteq> []))"

definition auth_inv :: "(string \<rightharpoonup> AuthEntry) \<Rightarrow> bool" where
  "auth_inv cfg \<longleftrightarrow> (\<forall>ns d. cfg ns = Some d \<longrightarrow> auth_ok d)"

text \<open>Example descriptors, one of each kind, one of an unknown kind and one incomplete.\<close>

definition bearer_desc :: AuthEntry where
  "bearer_desc = (fresh_entry ''bearer'')\<lparr>a_token := Some ''tok''\<rparr>"

definition apiKey_desc :: AuthEntry where
  "apiKey_desc =
     (fresh_entry ''apiKey'')\<lparr>a_token := Some ''secret'', a_headerName := Some ''X-API-Key''\<rparr>"

definition basic_desc :: AuthEntry where
  "basic_desc = (fresh_entry ''basic'')\<lparr>a_username := Some ''u'', a_password := Some ''p''\<rparr>"

definition digest_desc :: AuthEntry where
  "digest_desc = (fresh_entry ''digest'')\<lparr>a_token := Some ''tok''\<rparr>"

definition half_basic_desc :: AuthEntry where
  "half_basic_desc = (fresh_entry ''basic'')\<lparr>a_username := Some ''u''\<rparr>"

text \<open>
  A tool that declares a request body; a context without credentials; a response with
  a JSON object as payload, one with a text, one with an array and one with no payload.
\<close>

definition body_tool :: GeneratedTool where
  "body_tool =
     \<lparr> t_name = ''ns_addThing'', t_description = ''POST /thing/{id}'',
       t_operationId = Some ''addThing'', t_method = ''POST'', t_path = ''/thing/{id}'',
       t_parameters = [id_param], t_requestBody = Some (JObj [(''required'', JBool True)]),
       t_responses = None, t_security = JArr [], t_baseUrl = ''https://api.example.com'' \<rparr>"

definition example_context :: ToolExecutionContext where
  "example_context = \<lparr> x_apiName = ''ns'', x_tool = two_param_tool, x_authConfig = None \<rparr>"

definition json_response :: AxiosResponse where
  "json_response =
     \<lparr> s_status = 200, s_statusText = ''OK'',
       s_headers = [(''content-type'', JStr ''application/json''),
                    (''set-cookie'', JArr [JStr ''a=1'', JStr ''b=2''])],
       s_data = Some (JObj [(''id'', JNum 42), (''tags'', JArr [JStr ''x''])]) \<rparr>"

definition text_response :: AxiosResponse where
  "text_response =
     \<lparr> s_status = 200, s_statusText = ''OK'', s_headers = [(''content-type'', JStr ''text/plain'')],
       s_data = Some (JStr ''pong'') \<rparr>"

definition list_response :: AxiosResponse where
  "list_response =
     \<lparr> s_status = 200, s_statusText = ''OK'', s_headers = [],
       s_data = Some (JArr [JNum 1, JBool False]) \<rparr>"

definition empty_response :: AxiosResponse where
  "empty_response =
     \<lparr> s_status = 204, s_statusText = ''No Content'', s_headers = [], s_data = Some JNull \<rparr>"

text \<open>
  \<open>active args q\<close>: the round of the URL loop for parameter \<open>q\<close> substitutes, that is,
  \<open>q\<close> is a path parameter and the arguments supply it.
\<close>

definition active :: "(string \<times> json) list \<Rightarrow> ToolParameter \<Rightarrow> bool" where
  "active args q \<longleftrightarrow> p_in q = ''path'' \<and> map_of args (p_name q) \<noteq> None"

text \<open>
  The URL template as the data model describes it: literal text and \<open>{name}\<close>
  placeholders. \<open>render\<close> is the text of a template. A template is well formed when no
  literal holds \<open>{\<close> and no placeholder name holds a brace. \<open>subst_first n r\<close> turns the
  first placeholder \<open>n\<close> into the literal \<open>r\<close>; \<open>seg_step\<close> and \<open>seg_loop\<close> are the
  rounds of the URL loop at this level. \<open>same_or_filled n x y\<close>: the segment \<open>y\<close> is the
  segment \<open>x\<close>, or \<open>x\<close> is a placeholder other than \<open>n\<close> and \<open>y\<close> is a literal.
\<close>

datatype seg = Lit string | Hole string

fun render :: "seg list \<Rightarrow> string" where
  "render [] = []"
| "render (Lit s # rest) = s @ render rest"
| "render (Hole n # rest) = ''{'' @ n @ ''}'' @ render rest"

fun wf_seg :: "seg \<Rightarrow> bool" where
  "wf_seg (Lit s) = (CHR ''{'' \<notin> set s)"
| "wf_seg (Hole n) = (CHR ''{'' \<notin> set n \<and> CHR ''}'' \<notin> set n)"

definition well_formed :: "seg list \<Rightarrow> bool" where
  "well_formed segs = list_all wf_seg segs"

fun subst_first :: "string \<Rightarrow> string \<Rightarrow> seg list \<Rightarrow> seg list" where
  "subst_first n r [] = []"
| "subst_first n r (x # xs) = (if x = Hole n then Lit r # xs else x # subst_first n r xs)"

definition seg_step :: "(string \<times> json) list \<Rightarrow> ToolParameter \<Rightarrow> seg list \<Rightarrow> seg list" where
  "seg_step args param segs =
     (if p_in param = ''path'' then
        (case map_of args (p_name param) of
           Some v \<Rightarrow> subst_first (p_name param) (encodeURIComponent (js_String v)) segs
         | None \<Rightarrow> segs)
      else segs)"

fun seg_loop :: "(string \<times> json) list \<Rightarrow> seg list \<Rightarrow> ToolParameter list \<Rightarrow> seg list" where
  "seg_loop args segs [] = segs"
| "seg_loop args segs (param # rest) = seg_loop args (seg_step args param segs) rest"

definition same_or_filled :: "string \<Rightarrow> seg \<Rightarrow> seg \<Rightarrow> bool" where
  "same_or_filled n x y \<longleftrightarrow> y = x \<or> (\<exists>m r. m \<noteq> n \<and> x = Hole m \<and> y = Lit r)"

text \<open>
  Tools for the URL construction: the pet by id (with a query parameter and the path
  parameter declared at both levels); the same path under a server URL that has a
  variable named \<open>id\<close>; and a path that names \<open>{id}\<close> twice, with the parameter
  declared once and declared at both levels.
\<close>

definition raw_id_param :: RawParam where
  "raw_id_param =
     \<lparr> r_ref = None, r_in = Some ''path'', r_name = Some ''id'',
       r_schema = Some (JObj [(''type'', JStr ''string'')]),
       r_required = Some True, r_description = None \<rparr>"

definition verbose_param :: ToolParameter where
  "verbose_param =
     \<lparr> p_name = ''verbose'', p_in = ''query'', p_required = False,
       p_schema = JObj [(''type'', JStr ''boolean'')], p_description = None \<rparr>"

definition pet_tool :: GeneratedTool where
  "pet_tool =
     \<lparr> t_name = ''petstore_getPetById'', t_description = ''Find pet by ID'',
       t_operationId = Some ''getPetById'', t_method = ''GET'', t_path = ''/pet/{id}'',
       t_parameters = [id_param, verbose_param, id_param], t_requestBody = None,
       t_responses = None, t_security = JArr [],
       t_baseUrl = ''https://petstore.example.com/v2/'' \<rparr>"

definition server_var_tool :: GeneratedTool where
  "server_var_tool = pet_tool\<lparr> t_parameters := [id_param],
                               t_baseUrl := ''https://{id}.example.com'' \<rparr>"

definition twice_operation :: Operation where
  "twice_operation =
     \<lparr> op_operationId = Some ''link'', op_summary = Some ''Link a thing to itself'',
       op_description = None, op_parameters = Some [raw_id_param], op_requestBody = None,
       op_responses = None, op_security = None \<rparr>"

definition twice_tool :: GeneratedTool where
  "twice_tool =
     \<lparr> t_name = ''ns_link'', t_description = ''Link a thing to itself'',
       t_operationId = Some ''link'', t_method = ''GET'', t_path = ''/a/{id}/b/{id}'',
       t_parameters = [id_param], t_requestBody = None, t_responses = None,
       t_security = JArr [], t_baseUrl = ''https://api.example.com'' \<rparr>"

definition twice_declared_tool :: GeneratedTool where
  "twice_declared_tool = twice_tool\<lparr> t_parameters := [id_param, id_param] \<rparr>"

text \<open>
  Three more tools on such paths: one with a further placeholder \<open>{x}\<close> under a server
  URL with the variable \<open>{region}\<close>; one with a second path parameter whose name holds
  braces; and one whose path nests a placeholder in another.
\<close>

definition x_param :: ToolParameter where
  "x_param = id_param\<lparr> p_name := ''x'' \<rparr>"

definition multi_tool :: GeneratedTool where
  "multi_tool =
     twice_tool\<lparr> t_path := ''/a/{id}/b/{id}/c/{x}'', t_parameters := [x_param, id_param],
                 t_baseUrl := ''https://{region}.example.com/'' \<rparr>"

definition brace_param :: ToolParameter where
  "brace_param = id_param\<lparr> p_name := ''id}/b/{id'' \<rparr>"

definition brace_tool :: GeneratedTool where
  "brace_tool = twice_tool\<lparr> t_parameters := [brace_param, id_param] \<rparr>"

definition m_param :: ToolParameter where
  "m_param = id_param\<lparr> p_name := ''m'' \<rparr>"

definition nested_tool :: GeneratedTool where
  "nested_tool =
     twice_tool\<lparr> t_path := ''/{i{m}d}/a/{id}/b/{id}'', t_parameters := [m_param, id_param] \<rparr>"

section \<open>Properties of the string operations\<close>

lemma startsWith_take: "startsWith s p \<longleftrightarrow> take (length p) s = p"
  by (induction s p rule: startsWith.induct) auto

lemma startsWith_append [simp]: "startsWith (p @ r) p"
  by (simp add: startsWith_take)

lemma str_includes_start: "str_includes (p @ b) p"
proof (cases "p @ b")
  case Nil
  then show ?thesis by simp
next
  case (Cons c cs)
  have "startsWith (p @ b) p" by simp
  then have "startsWith (c # cs) p" by (simp only: Cons)
  then have "str_includes (c # cs) p" by simp
  then show ?thesis by (simp only: Cons)
qed

lemma str_includes_append: "str_includes (a @ p @ b) p"
  by (induction a) (simp_all add: str_includes_start)

section \<open>Properties of the tool names\<close>

lemma created_some: "\<exists>t. createToolFromOperation a p m operation b pl = Some t"
  by (simp add: createToolFromOperation_def Let_def)

lemma item_tools_Nil: "item_tools a p item b [] = {}"
  by (simp add: item_tools_def)

lemma item_tools_Cons:
  "item_tools a p item b (m # ms) =
     (case map_of (pi_operations item) m of
        None \<Rightarrow> {}
      | Some operation \<Rightarrow>
          {t. createToolFromOperation a p m operation b (pi_parameters item) = Some t})
     \<union> item_tools a p item b ms"
  by (auto simp: item_tools_def split: option.splits)

lemma methods_loop_set:
  "set (methods_loop a p item b tools ms) = set tools \<union> item_tools a p item b ms"
proof (induction ms arbitrary: tools)
  case Nil
  then show ?case by (simp add: item_tools_Nil)
next
  case (Cons m ms)
  show ?case
  proof (cases "map_of (pi_operations item) m")
    case None
    with Cons show ?thesis by (simp add: item_tools_Cons)
  next
    case (Some operation)
    obtain t where t: "createToolFromOperation a p m operation b (pi_parameters item) = Some t"
      using created_some by blast
    with Some Cons[of "tools @ [t]"] show ?thesis
      by (auto simp: item_tools_Cons)
  qed
qed

lemma paths_loop_set:
  "set (paths_loop a b tools ps) = set tools \<union> (\<Union>e \<in> set ps. entry_tools a b e)"
proof (induction ps arbitrary: tools)
  case Nil
  then show ?case by simp
next
  case (Cons e ps)
  obtain p entry where e: "e = (p, entry)" by (cases e)
  show ?case
  proof (cases entry)
    case None
    with Cons e show ?thesis by (simp add: entry_tools_def)
  next
    case (Some item)
    with Cons[of "methods_loop a p item b tools methods"] e show ?thesis
      by (auto simp: entry_tools_def methods_loop_set)
  qed
qed

lemma generateToolsFromSpec_set:
  "set (generateToolsFromSpec spec a) =
     (case d_paths spec of
        None \<Rightarrow> {}
      | Some paths \<Rightarrow> (\<Union>e \<in> set paths. entry_tools a (getBaseUrl spec) e))"
  by (auto simp: generateToolsFromSpec_def paths_loop_set split: option.splits)

lemma created_tool_fields:
  assumes "createToolFromOperation a p m operation b pl = Some t"
  shows "t_name t = generateToolName a (op_operationId operation) p m"
    and "t_operationId t = op_operationId operation"
    and "t_path t = p"
    and "t_method t = toUpperCase m"
  using assms by (auto simp: createToolFromOperation_def Let_def)

lemma join_empty_iff: "sep \<noteq> [] \<Longrightarrow> join sep xs = [] \<longleftrightarrow> xs = [] \<or> xs = [[]]"
  by (induction sep xs rule: join.induct) auto

lemma generateToolName_cases:
  "generateToolName a oid p m =
     (if truthy_str oid then a @ ''_'' @ the oid
      else a @ ''_'' @ m @ ''_'' @
        (if pathParts p = [] \<or> pathParts p = [[]] then ''root'' else join ''_'' (pathParts p)))"
  by (simp add: generateToolName_def Let_def join_empty_iff)

text \<open>
  Claim C1, as the code has it. Every operation of the document, that is every
  operation object that a path item of \<open>paths\<close> stores under one of the seven methods,
  is compiled by \<open>createToolFromOperation\<close> into a tool of the result, with the
  operation's operationId, path and method (in upper case). The tool is named
  \<open>{namespace}_{operationId}\<close> when the operation declares a non-empty operationId.
  Otherwise it is named \<open>{namespace}_{method}_{pathName}\<close>, with the method in lower
  case and the path name made of the path's segments: split on \<open>/\<close>, empty segments and
  segments starting with \<open>{\<close> dropped, non-alphanumeric characters stripped, joined with
  \<open>_\<close>; the path name is \<open>root\<close> when that text is empty, which is when no segment
  remains or the single remaining segment has no alphanumeric character. Conversely
  every tool of the result is compiled from such an operation.
\<close>

theorem generated_tool_name:
  "(d_paths spec = Some paths \<and> (path, Some item) \<in> set paths \<and> m \<in> set methods
      \<and> map_of (pi_operations item) m = Some operation \<longrightarrow>
      (\<exists>tool \<in> set (generateToolsFromSpec spec apiName).
          createToolFromOperation apiName path m operation (getBaseUrl spec) (pi_parameters item)
            = Some tool
        \<and> t_operationId tool = op_operationId operation
        \<and> t_path tool = path \<and> t_method tool = toUpperCase m
        \<and> (\<forall>opId. op_operationId operation = Some opId \<and> opId \<noteq> [] \<longrightarrow>
              t_name tool = apiName @ ''_'' @ opId)
        \<and> (op_operationId operation = None \<or> op_operationId operation = Some [] \<longrightarrow>
              t_name tool = apiName @ ''_'' @ m @ ''_'' @
                (if pathParts path = [] \<or> pathParts path = [[]] then ''root''
                 else join ''_'' (pathParts path)))))
   \<and> (tool \<in> set (generateToolsFromSpec spec apiName) \<longrightarrow>
      (\<exists>paths path item m operation.
          d_paths spec = Some paths \<and> (path, Some item) \<in> set paths \<and> m \<in> set methods
        \<and> map_of (pi_operations item) m = Some operation
        \<and> createToolFromOperation apiName path m operation (getBaseUrl spec) (pi_parameters item)
            = Some tool))"
proof (intro conjI impI)
  assume a: "d_paths spec = Some paths \<and> (path, Some item) \<in> set paths \<and> m \<in> set methods
      \<and> map_of (pi_operations item) m = Some operation"
  obtain t where t: "createToolFromOperation apiName path m operation (getBaseUrl spec)
      (pi_parameters item) = Some t"
    using created_some by blast
  from a t have "t \<in> item_tools apiName path item (getBaseUrl spec) methods"
    unfolding item_tools_def by blast
  then have "t \<in> entry_tools apiName (getBaseUrl spec) (path, Some item)"
    by (simp add: entry_tools_def)
  with a have mem: "t \<in> set (generateToolsFromSpec spec apiName)"
    unfolding generateToolsFromSpec_set by auto
  note f = created_tool_fields[OF t]
  have n1: "\<forall>opId. op_operationId operation = Some opId \<and> opId \<noteq> [] \<longrightarrow>
              t_name t = apiName @ ''_'' @ opId"
    unfolding f(1) generateToolName_cases by (simp add: truthy_str_def)
  have n2: "op_operationId operation = None \<or> op_operationId operation = Some [] \<longrightarrow>
              t_name t = apiName @ ''_'' @ m @ ''_'' @
                (if pathParts path = [] \<or> pathParts path = [[]] then ''root''
                 else join ''_'' (pathParts path))"
    unfolding f(1) generateToolName_cases by (auto simp: truthy_str_def)
  from mem t f(2,3,4) n1 n2
  show "\<exists>tool \<in> set (generateToolsFromSpec spec apiName).
          createToolFromOperation apiName path m operation (getBaseUrl spec) (pi_parameters item)
            = Some tool
        \<and> t_operationId tool = op_operationId operation
        \<and> t_path tool = path \<and> t_method tool = toUpperCase m
        \<and> (\<forall>opId. op_operationId operation = Some opId \<and> opId \<noteq> [] \<longrightarrow>
              t_name tool = apiName @ ''_'' @ opId)
        \<and> (op_operationId operation = None \<or> op_operationId operation = Some [] \<longrightarrow>
              t_name tool = apiName @ ''_'' @ m @ ''_'' @
                (if pathParts path = [] \<or> pathParts path = [[]] then ''root''
                 else join ''_'' (pathParts path)))"
    by (intro bexI[of _ t]) simp_all
next
  assume "tool \<in> set (generateToolsFromSpec spec apiName)"
  then obtain paths e where p: "d_paths spec = Some paths" "e \<in> set paths"
      "tool \<in> entry_tools apiName (getBaseUrl spec) e"
    unfolding generateToolsFromSpec_set by (auto split: option.splits)
  obtain path entry where e: "e = (path, entry)" by (cases e)
  with p(3) obtain item where i: "entry = Some item"
      "tool \<in> item_tools apiName path item (getBaseUrl spec) methods"
    by (auto simp: entry_tools_def split: option.splits)
  from i(2) obtain m operation where "m \<in> set methods"
      "map_of (pi_operations item) m = Some operation"
      "createToolFromOperation apiName path m operation (getBaseUrl spec) (pi_parameters item)
         = Some tool"
    unfolding item_tools_def by blast
  with p(1,2) e i(1)
  show "\<exists>paths path item m operation.
          d_paths spec = Some paths \<and> (path, Some item) \<in> set paths \<and> m \<in> set methods
        \<and> map_of (pi_operations item) m = Some operation
        \<and> createToolFromOperation apiName path m operation (getBaseUrl spec) (pi_parameters item)
            = Some tool"
    by blast
qed

text \<open>
  The theorem at the two operations of the example document, \<open>GET /a/{id}/b\<close> without
  operationId and \<open>POST /a/{id}/b\<close> with the operationId \<open>createB\<close>, in namespace \<open>ns\<close>:
  their tools are named \<open>ns_get_a_b\<close> and \<open>ns_createB\<close>; and at the first tool of the
  result, which comes from an operation of the document.
\<close>

theorem generated_tool_name_witness:
  "(\<exists>tool \<in> set (generateToolsFromSpec example_doc ''ns'').
      createToolFromOperation ''ns'' ''/a/{id}/b'' ''get'' example_operation
        (getBaseUrl example_doc) (pi_parameters example_item) = Some tool
      \<and> t_name tool = ''ns_get_a_b'')
   \<and> (\<exists>tool \<in> set (generateToolsFromSpec example_doc ''ns'').
      createToolFromOperation ''ns'' ''/a/{id}/b'' ''post'' named_operation
        (getBaseUrl example_doc) (pi_parameters example_item) = Some tool
      \<and> t_name tool = ''ns_createB'')
   \<and> generateToolsFromSpec example_doc ''ns'' = [example_tool, named_tool]
   \<and> (\<exists>paths path item m operation.
          d_paths example_doc = Some paths \<and> (path, Some item) \<in> set paths \<and> m \<in> set methods
        \<and> map_of (pi_operations item) m = Some operation
        \<and> createToolFromOperation ''ns'' path m operation (getBaseUrl example_doc)
             (pi_parameters item) = Some example_tool)"
proof -
  have gen: "generateToolsFromSpec example_doc ''ns'' = [example_tool, named_tool]"
    by (simp add: generateToolsFromSpec_def example_doc_def example_item_def example_tool_def
        named_tool_def example_operation_def named_operation_def methods_def
        createToolFromOperation_def getBaseUrl_def generateToolName_def pathParts_def
        truthy_str_def truthy_json_def isAlnum_def extractParameters_def or_list_def
        toUpperCase_def upper_char_def)
  have d: "d_paths example_doc = Some [(''/a/{id}/b'', Some example_item)]"
    by (simp add: example_doc_def)
  have m: "''get'' \<in> set methods" "''post'' \<in> set methods"
    by (simp_all add: methods_def)
  have o: "map_of (pi_operations example_item) ''get'' = Some example_operation"
    "map_of (pi_operations example_item) ''post'' = Some named_operation"
    by (simp_all add: example_item_def)
  have i: "op_operationId example_operation = None"
    "op_operationId named_operation = Some ''createB''"
    by (simp_all add: example_operation_def named_operation_def)
  have parts: "pathParts ''/a/{id}/b'' = [''a'', ''b'']"
    by (simp add: pathParts_def isAlnum_def)
  have mem: "example_tool \<in> set (generateToolsFromSpec example_doc ''ns'')"
    by (simp add: gen)
  from generated_tool_name[of example_doc "[(''/a/{id}/b'', Some example_item)]" "''/a/{id}/b''"
      example_item "''get''" example_operation "''ns''" example_tool]
    d m o i parts mem
  have g: "(\<exists>tool \<in> set (generateToolsFromSpec example_doc ''ns'').
      createToolFromOperation ''ns'' ''/a/{id}/b'' ''get'' example_operation
        (getBaseUrl example_doc) (pi_parameters example_item) = Some tool
      \<and> t_name tool = ''ns_get_a_b'')
    \<and> (\<exists>paths path item m operation.
          d_paths example_doc = Some paths \<and> (path, Some item) \<in> set paths \<and> m \<in> set methods
        \<and> map_of (pi_operations item) m = Some operation
        \<and> createToolFromOperation ''ns'' path m operation (getBaseUrl example_doc)
             (pi_parameters item) = Some example_tool)"
    by (simp, blast)
  from generated_tool_name[of example_doc "[(''/a/{id}/b'', Some example_item)]" "''/a/{id}/b''"
      example_item "''post''" named_operation "''ns''" example_tool]
    d m o i
  have p: "\<exists>tool \<in> set (generateToolsFromSpec example_doc ''ns'').
      createToolFromOperation ''ns'' ''/a/{id}/b'' ''post'' named_operation
        (getBaseUrl example_doc) (pi_parameters example_item) = Some tool
      \<and> t_name tool = ''ns_createB''"
    by (simp, blast)
  from g p gen show ?thesis by blast
qed

text \<open>
  Claim C1 as stated fails at the path \<open>/-\<close>: one segment remains after the dropping,
  it is empty after the stripping, and the code names the tool \<open>ns_get_root\<close>, where the
  claim's rule (\<open>root\<close> only when no segment remains) gives \<open>ns_get_\<close>. It also fails
  for an operation that declares the empty text as its operationId: the code takes the
  name from the path, \<open>ns_get_a\<close>, where the claim's rule gives \<open>ns_\<close>.
\<close>

theorem generated_tool_name_counterexample:
  "pathParts ''/-'' = [[]]
   \<and> generateToolName ''ns'' None ''/-'' ''get'' = ''ns_get_root''
   \<and> ''ns'' @ ''_'' @ ''get'' @ ''_'' @ spec_pathName ''/-'' = ''ns_get_''
   \<and> generateToolName ''ns'' None ''/-'' ''get'' \<noteq> ''ns'' @ ''_'' @ ''get'' @ ''_'' @ spec_pathName ''/-''
   \<and> generateToolName ''ns'' (Some []) ''/a'' ''get'' = ''ns_get_a''
   \<and> generateToolName ''ns'' (Some []) ''/a'' ''get'' \<noteq> ''ns'' @ ''_'' @ []"
  by (simp add: generateToolName_def pathParts_def truthy_str_def isAlnum_def spec_pathName_def)

section \<open>Properties of the parameter extraction\<close>

lemma extract_loop_eq:
  "extract_loop acc ps = acc @ map toToolParameter (filter kept ps)"
  by (induction ps arbitrary: acc) (auto simp: kept_def)

lemma extractParameters_eq:
  "extractParameters ps = map toToolParameter (filter kept ps)"
  by (simp add: extractParameters_def extract_loop_eq)

lemma two_param_tool_created:
  "createToolFromOperation ''ns'' ''/thing/{id}'' ''get'' two_param_operation
     ''https://api.example.com'' None = Some two_param_tool"
  by (simp add: createToolFromOperation_def two_param_operation_def two_param_tool_def
      id_param_def optional_path_param_def schemaless_param_def generateToolName_def
      truthy_str_def truthy_json_def extractParameters_def toToolParameter_def
      or_undefined_def or_list_def toUpperCase_def upper_char_def)

text \<open>
  Claim C5, as the code has it. Every extracted parameter comes from a declared
  parameter object with the same location and name, and its \<open>required\<close> flag is true
  exactly when the document declares \<open>required: true\<close> or the location is \<open>path\<close>. So
  the flag defaults to true for a path parameter and to false for any other, an explicit
  \<open>required: true\<close> overrides the default of a non-path parameter, and an explicit
  \<open>required: false\<close> on a path parameter changes nothing: the flag stays true.
\<close>

theorem required_flag:
  assumes "q \<in> set (extractParameters ps)"
  shows "\<exists>p \<in> set ps. r_in p = Some (p_in q) \<and> r_name p = Some (p_name q)
           \<and> (p_required q \<longleftrightarrow> r_required p = Some True \<or> p_in q = ''path'')"
proof -
  from assms obtain p where p: "p \<in> set ps" "kept p" "q = toToolParameter p"
    by (auto simp: extractParameters_eq)
  from p(2) obtain l n where "r_in p = Some l" "r_name p = Some n"
    by (auto simp: kept_def truthy_str_def split: option.splits)
  with p show ?thesis
    by (intro bexI[of _ p]) (auto simp: toToolParameter_def or_undefined_def split: option.splits)
qed

text \<open>The theorem at the path parameter \<open>id\<close> declared with \<open>required: false\<close>.\<close>

theorem required_flag_witness:
  "id_param \<in> set (extractParameters [optional_path_param])
   \<and> (\<exists>p \<in> set [optional_path_param]. r_in p = Some (p_in id_param)
         \<and> r_name p = Some (p_name id_param)
         \<and> (p_required id_param \<longleftrightarrow> r_required p = Some True \<or> p_in id_param = ''path''))"
proof -
  have mem: "id_param \<in> set (extractParameters [optional_path_param])"
    by (simp add: extractParameters_def optional_path_param_def id_param_def
        toToolParameter_def truthy_str_def truthy_json_def or_undefined_def)
  from required_flag[OF mem] mem show ?thesis by blast
qed

text \<open>
  Claim C5 as stated fails: a path parameter declared with \<open>required: false\<close> is
  extracted with \<open>required = true\<close>; the explicit declaration does not override.
\<close>

theorem required_flag_counterexample:
  "r_in optional_path_param = Some ''path''
   \<and> r_required optional_path_param = Some False
   \<and> map p_required (extractParameters [optional_path_param]) = [True]"
  by (simp add: extractParameters_def optional_path_param_def toToolParameter_def
      truthy_str_def truthy_json_def or_undefined_def)

text \<open>
  Claim C9. The parameter list of a compiled tool holds exactly the declared parameter
  objects (path-level first, then operation-level) that have no \<open>$ref\<close> and whose \<open>in\<close>,
  \<open>name\<close> and \<open>schema\<close> are all truthy, in their order. An object with a missing or
  falsy \<open>name\<close>, \<open>in\<close> or \<open>schema\<close> leaves no trace: the extraction gives the same list
  as without it. In particular a parameter declared without a schema gives no
  parameter at all.
\<close>

theorem dropped_parameters:
  "(createToolFromOperation a path m operation b pl = Some t \<longrightarrow>
      t_parameters t =
        map toToolParameter
          (filter (\<lambda>p. r_ref p = None \<and> truthy_str (r_in p) \<and> truthy_str (r_name p)
                        \<and> truthy_json (r_schema p))
             (or_list pl @ or_list (op_parameters operation))))
   \<and> (\<not> truthy_str (r_name p) \<or> \<not> truthy_str (r_in p) \<or> \<not> truthy_json (r_schema p) \<longrightarrow>
        extractParameters (before @ [p] @ after) = extractParameters (before @ after))
   \<and> (r_schema p = None \<longrightarrow> extractParameters [p] = [])"
  by (auto simp: createToolFromOperation_def Let_def extractParameters_eq kept_def[abs_def]
      truthy_json_def)

text \<open>
  The theorem at an operation that declares the path parameter \<open>id\<close> and the query
  parameter \<open>limit\<close>, the latter without a schema: the tool has the single parameter
  \<open>id\<close>.
\<close>

theorem dropped_parameters_witness:
  "createToolFromOperation ''ns'' ''/thing/{id}'' ''get'' two_param_operation
       ''https://api.example.com'' None = Some two_param_tool
   \<and> r_schema schemaless_param = None
   \<and> \<not> truthy_json (r_schema schemaless_param)
   \<and> t_parameters two_param_tool = [toToolParameter optional_path_param]
   \<and> extractParameters ([optional_path_param] @ [schemaless_param] @ []) =
       extractParameters ([optional_path_param] @ [])
   \<and> extractParameters [schemaless_param] = []"
proof -
  have s: "r_schema schemaless_param = None" by (simp add: schemaless_param_def)
  have f: "\<not> truthy_json (r_schema schemaless_param)" by (simp add: s truthy_json_def)
  have k: "or_list None @ or_list (op_parameters two_param_operation) =
             [optional_path_param, schemaless_param]"
    by (simp add: or_list_def two_param_operation_def)
  have o: "r_ref optional_path_param = None \<and> truthy_str (r_in optional_path_param)
           \<and> truthy_str (r_name optional_path_param) \<and> truthy_json (r_schema optional_path_param)"
    by (simp add: optional_path_param_def truthy_str_def truthy_json_def)
  from dropped_parameters[of "''ns''" "''/thing/{id}''" "''get''" two_param_operation
      "''https://api.example.com''" None two_param_tool schemaless_param
      "[optional_path_param]" "[]"]
    two_param_tool_created s f k o
  show ?thesis by simp
qed

section \<open>Properties of the credentials\<close>

lemma match_suffix_nonempty: "match_suffix suffix key = Some m \<Longrightarrow> m \<noteq> []"
  by (auto simp: match_suffix_def Let_def split: if_splits)

lemma classify_nonempty:
  assumes "classify key = Some (ns, ty, k)"
  shows "ns \<noteq> []" and "ty \<noteq> []"
  using assms
  by (auto simp: classify_def toLowerCase_def split: option.splits if_splits
      dest: match_suffix_nonempty)

lemma classify_types:
  assumes "classify key = Some (ns, ty, k)"
  shows "ty = ''bearer'' \<and> k = Token \<or> ty = ''apiKey'' \<and> k = Token
       \<or> ty = ''basic'' \<and> (k = Username \<or> k = Password)"
  using assms by (auto simp: classify_def split: option.splits if_splits)

lemma a_type_set_field: "a_type (set_field k v e) = a_type e"
  by (cases k) (simp_all add: set_field_def)

lemma a_type_store_entry:
  "a_type (store_entry ty k v e) = (if ty = ''bearer'' then ''bearer'' else a_type e)"
  by (simp add: store_entry_def Let_def a_type_set_field)

lemma auth_step_same:
  assumes "snd e \<noteq> []" and "classify (fst e) = Some (ns, ty, k)"
  shows "auth_step cfg e ns =
           Some (store_entry ty k (snd e) (case cfg ns of None \<Rightarrow> fresh_entry ty | Some d \<Rightarrow> d))"
  using assms classify_nonempty[OF assms(2)] by (simp add: auth_step_def)

lemma auth_step_other:
  assumes "classify (fst e) = Some (ns', ty, k)" and "ns \<noteq> ns'"
  shows "auth_step cfg e ns = cfg ns"
  using assms by (simp add: auth_step_def)

lemma auth_step_skip: "snd e = [] \<or> classify (fst e) = None \<Longrightarrow> auth_step cfg e = cfg"
  by (auto simp: auth_step_def)

lemma auth_step_bearer_entry:
  assumes "snd e \<noteq> []" and "classify (fst e) = Some (ns, ''bearer'', k)"
  shows "\<exists>d. auth_step cfg e ns = Some d \<and> a_type d = ''bearer''"
  by (simp add: auth_step_same[OF assms] a_type_store_entry)

lemma auth_step_keeps_bearer:
  assumes "cfg ns = Some d" and "a_type d = ''bearer''"
  shows "\<exists>d'. auth_step cfg e ns = Some d' \<and> a_type d' = ''bearer''"
proof (cases "snd e = [] \<or> classify (fst e) = None")
  case True
  with assms show ?thesis by (simp add: auth_step_skip)
next
  case False
  then obtain ns' ty k where c: "classify (fst e) = Some (ns', ty, k)" and v: "snd e \<noteq> []"
    by auto
  show ?thesis
  proof (cases "ns' = ns")
    case False
    with c assms show ?thesis by (simp add: auth_step_other)
  next
    case True
    with c v assms show ?thesis by (simp add: auth_step_same a_type_store_entry)
  qed
qed


lemma auth_loop_keeps_bearer:
  assumes "cfg ns = Some d" and "a_type d = ''bearer''"
  shows "\<exists>d'. auth_loop cfg env ns = Some d' \<and> a_type d' = ''bearer''"
  using assms
proof (induction env arbitrary: cfg d)
  case Nil
  then show ?case by simp
next
  case (Cons e env)
  from auth_step_keeps_bearer[of cfg ns d e] Cons.prems
  obtain d' where "auth_step cfg e ns = Some d'" "a_type d' = ''bearer''" by blast
  from Cons.IH[of "auth_step cfg e" d'] this show ?case by simp
qed

lemma auth_loop_bearer_entry:
  assumes "e \<in> set env" and "snd e \<noteq> []" and "classify (fst e) = Some (ns, ''bearer'', k)"
  shows "\<exists>d. auth_loop cfg env ns = Some d \<and> a_type d = ''bearer''"
  using assms(1)
proof (induction env arbitrary: cfg)
  case Nil
  then show ?case by simp
next
  case (Cons x env)
  show ?case
  proof (cases "x = e")
    case True
    from auth_step_bearer_entry[OF assms(2,3)]
    obtain d where "auth_step cfg e ns = Some d" "a_type d = ''bearer''" by blast
    from auth_loop_keeps_bearer[of "auth_step cfg e" ns d env] this True
    show ?thesis by simp
  next
    case False
    with Cons.prems have "e \<in> set env" by simp
    from Cons.IH[OF this] show ?thesis by simp
  qed
qed


lemma match_suffix_append:
  "name \<noteq> [] \<Longrightarrow> no_line_terminator name \<Longrightarrow> match_suffix suffix (name @ suffix) = Some name"
  by (simp add: match_suffix_def)

lemma match_suffix_Some: "match_suffix suffix key = Some m \<Longrightarrow> key = m @ suffix"
  by (auto simp: match_suffix_def Let_def split: if_splits)
     (metis append_take_drop_id)

lemma classify_bearer_token_key:
  assumes "name \<noteq> []" and "no_line_terminator name"
  shows "classify (name @ ''_BEARER_TOKEN'') = Some (toLowerCase name, ''bearer'', Token)"
  by (simp add: classify_def match_suffix_append[OF assms])

lemma classify_token_key:
  assumes "name \<noteq> []" and "no_line_terminator name"
    and "\<not> str_includes (name @ ''_TOKEN'') ''BEARER''"
  shows "classify (name @ ''_TOKEN'') = Some (toLowerCase name, ''bearer'', Token)"
proof -
  have b: "match_suffix ''_BEARER_TOKEN'' (name @ ''_TOKEN'') = None"
  proof (rule ccontr)
    assume "match_suffix ''_BEARER_TOKEN'' (name @ ''_TOKEN'') \<noteq> None"
    then obtain m where "name @ ''_TOKEN'' = m @ ''_BEARER_TOKEN''"
      using match_suffix_Some by blast
    then have "name @ ''_TOKEN'' = (m @ ''_'') @ ''BEARER'' @ ''_TOKEN''" by simp
    with str_includes_append[of "m @ ''_''" "''BEARER''" "''_TOKEN''"] assms(3)
    show False by simp
  qed
  have k: "match_suffix ''_API_KEY'' (name @ ''_TOKEN'') = None"
  proof (rule ccontr)
    assume "match_suffix ''_API_KEY'' (name @ ''_TOKEN'') \<noteq> None"
    then obtain m where "name @ ''_TOKEN'' = m @ ''_API_KEY''"
      using match_suffix_Some by blast
    then have "last (name @ ''_TOKEN'') = last (m @ ''_API_KEY'')" by simp
    then show False by simp
  qed
  show ?thesis
    using assms(3) by (simp add: classify_def b k match_suffix_append[OF assms(1,2)])
qed

lemma a_token_store_entry: "a_token (store_entry ty Token v e) = Some v"
  by (simp add: store_entry_def set_field_def Let_def)

text \<open>
  Claim C8, as the code has it. In one round of the credential loop, a descriptor of
  kind \<open>bearer\<close> stays of kind \<open>bearer\<close> whatever the entry. An entry with a non-empty
  value whose key is \<open>{NAME}_BEARER_TOKEN\<close>, or \<open>{NAME}_TOKEN\<close> with no \<open>BEARER\<close> anywhere
  in the key (\<open>{NAME}\<close> not empty and without line terminator), leaves the namespace, which
  is \<open>{NAME}\<close> in lower case, with a descriptor of kind \<open>bearer\<close> that holds the value as
  its token, whatever the descriptor was before (none, \<open>apiKey\<close>, \<open>basic\<close>); hence the
  resolved descriptor of the namespace is of kind \<open>bearer\<close> as soon as the environment
  holds such an entry, wherever it stands in the order of the entries. An entry with an
  empty value changes nothing.
\<close>

theorem bearer_kind_wins:
  "(authConfig ns = Some d \<and> a_type d = ''bearer'' \<longrightarrow>
      (\<exists>d'. auth_step authConfig entry ns = Some d' \<and> a_type d' = ''bearer''))
   \<and> (val \<noteq> [] \<and> name \<noteq> [] \<and> no_line_terminator name
        \<and> (key = name @ ''_BEARER_TOKEN''
            \<or> key = name @ ''_TOKEN'' \<and> \<not> str_includes key ''BEARER'') \<longrightarrow>
        (\<exists>d'. auth_step authConfig (key, val) (toLowerCase name) = Some d'
               \<and> a_type d' = ''bearer'' \<and> a_token d' = Some val)
        \<and> ((key, val) \<in> set env \<longrightarrow>
             (\<exists>d'. loadAuthConfig env (toLowerCase name) = Some d' \<and> a_type d' = ''bearer'')))
   \<and> auth_step authConfig (key, []) = authConfig"
proof (intro conjI impI)
  assume "authConfig ns = Some d \<and> a_type d = ''bearer''"
  then show "\<exists>d'. auth_step authConfig entry ns = Some d' \<and> a_type d' = ''bearer''"
    using auth_step_keeps_bearer[of authConfig ns d entry] by blast
next
  assume a: "val \<noteq> [] \<and> name \<noteq> [] \<and> no_line_terminator name
        \<and> (key = name @ ''_BEARER_TOKEN''
            \<or> key = name @ ''_TOKEN'' \<and> \<not> str_includes key ''BEARER'')"
  then have c: "classify (fst (key, val)) = Some (toLowerCase name, ''bearer'', Token)"
    using classify_bearer_token_key[of name] classify_token_key[of name] by auto
  from a have v: "snd (key, val) \<noteq> []" by simp
  show "\<exists>d'. auth_step authConfig (key, val) (toLowerCase name) = Some d'
               \<and> a_type d' = ''bearer'' \<and> a_token d' = Some val"
    by (simp add: auth_step_same[OF v c] a_type_store_entry a_token_store_entry)
  show "(key, val) \<in> set env \<Longrightarrow>
        \<exists>d'. loadAuthConfig env (toLowerCase name) = Some d' \<and> a_type d' = ''bearer''"
    unfolding loadAuthConfig_def by (rule auth_loop_bearer_entry[OF _ v c])
next
  show "auth_step authConfig (key, []) = authConfig"
    by (simp add: auth_step_def)
qed

text \<open>
  The theorem at the namespace \<open>a\<close>: a bearer descriptor meeting an API-key entry, an
  API-key descriptor meeting the entries \<open>A_TOKEN\<close> and \<open>A_BEARER_TOKEN\<close>, the environment
  with an API key and a token in either order, and an entry with an empty value.
\<close>

theorem bearer_kind_wins_witness:
  "(\<exists>d'. auth_step [''a'' \<mapsto> bearer_desc] (''A_API_KEY'', ''k'') ''a'' = Some d'
          \<and> a_type d' = ''bearer'')
   \<and> (\<exists>d'. auth_step [''a'' \<mapsto> apiKey_desc] (''A_TOKEN'', ''t'') ''a'' = Some d'
          \<and> a_type d' = ''bearer'' \<and> a_token d' = Some ''t'')
   \<and> (\<exists>d'. auth_step [''a'' \<mapsto> apiKey_desc] (''A_BEARER_TOKEN'', ''b'') ''a'' = Some d'
          \<and> a_type d' = ''bearer'' \<and> a_token d' = Some ''b'')
   \<and> (\<exists>d'. loadAuthConfig [(''A_API_KEY'', ''k''), (''A_TOKEN'', ''t'')] ''a'' = Some d'
          \<and> a_type d' = ''bearer'')
   \<and> (\<exists>d'. loadAuthConfig [(''A_TOKEN'', ''t''), (''A_API_KEY'', ''k'')] ''a'' = Some d'
          \<and> a_type d' = ''bearer'')
   \<and> (\<exists>d'. loadAuthConfig [(''A_BEARER_TOKEN'', ''b''), (''A_USERNAME'', ''u'')] ''a'' = Some d'
          \<and> a_type d' = ''bearer'')
   \<and> auth_step [''a'' \<mapsto> apiKey_desc] (''A_TOKEN'', []) = [''a'' \<mapsto> apiKey_desc]"
proof -
  have n: "''A'' \<noteq> []" "no_line_terminator ''A''" "toLowerCase ''A'' = ''a''"
    "\<not> str_includes ''A_TOKEN'' ''BEARER''"
    by (simp_all add: no_line_terminator_def toLowerCase_def lower_char_def)
  have b: "a_type bearer_desc = ''bearer''"
    by (simp add: bearer_desc_def fresh_entry_def)
  from bearer_kind_wins[of "[''a'' \<mapsto> bearer_desc]" "''a''" bearer_desc "(''A_API_KEY'', ''k'')"
      "''t''" "''A''" "''A_TOKEN''" "[(''A_API_KEY'', ''k''), (''A_TOKEN'', ''t'')]"] b
  have w1: "\<exists>d'. auth_step [''a'' \<mapsto> bearer_desc] (''A_API_KEY'', ''k'') ''a'' = Some d'
          \<and> a_type d' = ''bearer''"
    by simp
  from bearer_kind_wins[of "[''a'' \<mapsto> apiKey_desc]" "''a''" apiKey_desc "(''A_TOKEN'', ''t'')"
      "''t''" "''A''" "''A_TOKEN''" "[(''A_API_KEY'', ''k''), (''A_TOKEN'', ''t'')]"] n
  have w2: "(\<exists>d'. auth_step [''a'' \<mapsto> apiKey_desc] (''A_TOKEN'', ''t'') ''a'' = Some d'
          \<and> a_type d' = ''bearer'' \<and> a_token d' = Some ''t'')
    \<and> (\<exists>d'. loadAuthConfig [(''A_API_KEY'', ''k''), (''A_TOKEN'', ''t'')] ''a'' = Some d'
          \<and> a_type d' = ''bearer'')
    \<and> auth_step [''a'' \<mapsto> apiKey_desc] (''A_TOKEN'', []) = [''a'' \<mapsto> apiKey_desc]"
    by simp
  from bearer_kind_wins[of "[''a'' \<mapsto> apiKey_desc]" "''a''" apiKey_desc "(''A_TOKEN'', ''t'')"
      "''t''" "''A''" "''A_TOKEN''" "[(''A_TOKEN'', ''t''), (''A_API_KEY'', ''k'')]"] n
  have w3: "\<exists>d'. loadAuthConfig [(''A_TOKEN'', ''t''), (''A_API_KEY'', ''k'')] ''a'' = Some d'
          \<and> a_type d' = ''bearer''"
    by simp
  from bearer_kind_wins[of "[''a'' \<mapsto> apiKey_desc]" "''a''" apiKey_desc "(''A_TOKEN'', ''t'')"
      "''b''" "''A''" "''A_BEARER_TOKEN''" "[(''A_BEARER_TOKEN'', ''b''), (''A_USERNAME'', ''u'')]"] n
  have w4: "(\<exists>d'. auth_step [''a'' \<mapsto> apiKey_desc] (''A_BEARER_TOKEN'', ''b'') ''a'' = Some d'
          \<and> a_type d' = ''bearer'' \<and> a_token d' = Some ''b'')
    \<and> (\<exists>d'. loadAuthConfig [(''A_BEARER_TOKEN'', ''b''), (''A_USERNAME'', ''u'')] ''a'' = Some d'
          \<and> a_type d' = ''bearer'')"
    by simp
  from w1 w2 w3 w4 show ?thesis by blast
qed

text \<open>
  Claim C8 as stated fails on two counts. A plain \<open>{NAME}_TOKEN\<close> entry whose key holds
  \<open>BEARER\<close> produces no descriptor: \<open>BEARERAPI_TOKEN=t\<close> leaves the namespace \<open>bearerapi\<close>
  without one. And a token entry with an empty value is passed over: after
  \<open>A_API_KEY=k\<close>, the entry \<open>A_TOKEN=\<close> leaves the namespace \<open>a\<close> of kind \<open>apiKey\<close>.
\<close>

theorem bearer_kind_wins_counterexample:
  "loadAuthConfig [(''BEARERAPI_TOKEN'', ''t'')] ''bearerapi'' = None
   \<and> map_option a_type (loadAuthConfig [(''A_API_KEY'', ''k''), (''A_TOKEN'', [])] ''a'')
       = Some ''apiKey''"
  by (simp add: loadAuthConfig_def auth_step_def classify_def match_suffix_def
      no_line_terminator_def toLowerCase_def lower_char_def store_entry_def set_field_def
      fresh_entry_def truthy_str_def)

lemma fresh_entry_fields:
  "a_type (fresh_entry ty) = ty" "a_token (fresh_entry ty) = None"
  "a_headerName (fresh_entry ty) = None"
  by (simp_all add: fresh_entry_def)

lemma store_entry_ok:
  assumes "v \<noteq> []"
    and "ty = ''bearer'' \<and> k = Token \<or> ty = ''apiKey'' \<and> k = Token
       \<or> ty = ''basic'' \<and> (k = Username \<or> k = Password)"
    and "auth_ok e \<or> e = fresh_entry ty"
  shows "auth_ok (store_entry ty k v e)"
proof -
  consider (b) "ty = ''bearer''" "k = Token" | (a) "ty = ''apiKey''" "k = Token"
    | (u) "ty = ''basic''" "k = Username" | (p) "ty = ''basic''" "k = Password"
    using assms(2) by blast
  then show ?thesis
  proof cases
    case b
    with assms(1,3) show ?thesis
      by (auto simp: auth_ok_def store_entry_def set_field_def fresh_entry_def)
  next
    case a
    with assms(1,3) show ?thesis
      by (auto simp: auth_ok_def store_entry_def set_field_def fresh_entry_def truthy_str_def)
  next
    case u
    with assms(1,3) show ?thesis
      by (auto simp: auth_ok_def store_entry_def set_field_def fresh_entry_def)
  next
    case p
    with assms(1,3) show ?thesis
      by (auto simp: auth_ok_def store_entry_def set_field_def fresh_entry_def)
  qed
qed


lemma auth_step_inv:
  assumes "auth_inv cfg"
  shows "auth_inv (auth_step cfg e)"
proof (cases "snd e = [] \<or> classify (fst e) = None")
  case True
  with assms show ?thesis by (simp add: auth_step_skip)
next
  case False
  then obtain ns ty k where c: "classify (fst e) = Some (ns, ty, k)" and v: "snd e \<noteq> []"
    by auto
  have new: "auth_ok (store_entry ty k (snd e) (case cfg ns of None \<Rightarrow> fresh_entry ty | Some d \<Rightarrow> d))"
  proof (rule store_entry_ok[OF v classify_types[OF c]])
    show "auth_ok (case cfg ns of None \<Rightarrow> fresh_entry ty | Some d \<Rightarrow> d)
        \<or> (case cfg ns of None \<Rightarrow> fresh_entry ty | Some d \<Rightarrow> d) = fresh_entry ty"
      using assms by (auto simp: auth_inv_def split: option.splits)
  qed
  show ?thesis
    unfolding auth_inv_def
  proof (intro allI impI)
    fix ns' d
    assume d: "auth_step cfg e ns' = Some d"
    show "auth_ok d"
    proof (cases "ns' = ns")
      case False
      with d c have "cfg ns' = Some d" by (simp add: auth_step_other)
      with assms show ?thesis unfolding auth_inv_def by blast
    next
      case True
      with d new show ?thesis by (simp add: auth_step_same[OF v c])
    qed
  qed
qed

lemma auth_loop_inv: "auth_inv cfg \<Longrightarrow> auth_inv (auth_loop cfg env)"
  by (induction env arbitrary: cfg) (simp_all add: auth_step_inv)

lemma loadAuthConfig_inv: "auth_inv (loadAuthConfig env)"
  unfolding loadAuthConfig_def by (rule auth_loop_inv) (simp add: auth_inv_def)

lemma loadAuthConfig_apiKey:
  assumes "loadAuthConfig env ns = Some a" and "a_type a = ''apiKey''"
  shows "a_headerName a = Some ''X-API-Key''" and "\<exists>t. a_token a = Some t \<and> t \<noteq> []"
  using loadAuthConfig_inv[of env] assms unfolding auth_inv_def auth_ok_def by blast+


text \<open>
  Claim C3. \<open>applyAuthentication\<close> on the headers \<open>h\<close>: a \<open>bearer\<close> descriptor with a
  (non-empty) token sets \<open>Authorization\<close> to \<open>Bearer {token}\<close>; an \<open>apiKey\<close> descriptor with
  a token and a header name sets that header to the token, and a descriptor of kind
  \<open>apiKey\<close> built by the resolver always has a token and the header name \<open>X-API-Key\<close>,
  so that \<open>X-API-Key\<close> carries the token; a \<open>basic\<close> descriptor with username \<open>u\<close> and
  password \<open>p\<close> sets \<open>Authorization\<close> to \<open>Basic\<close> followed by the base64 form of \<open>u:p\<close>.
  With no descriptor, with a descriptor of another kind, or with one that lacks a field
  its kind needs, the headers come back as they were.
\<close>

theorem authentication_headers:
  "(a_type a = ''bearer'' \<and> a_token a = Some t \<and> t \<noteq> [] \<longrightarrow>
      applyAuthentication h (Some a) = h(''Authorization'' \<mapsto> ''Bearer '' @ t))
   \<and> (a_type a = ''apiKey'' \<and> a_token a = Some t \<and> t \<noteq> [] \<and> a_headerName a = Some hn \<and> hn \<noteq> [] \<longrightarrow>
      applyAuthentication h (Some a) = h(hn \<mapsto> t))
   \<and> (loadAuthConfig env ns = Some a \<and> a_type a = ''apiKey'' \<longrightarrow>
      (\<exists>tok. a_token a = Some tok \<and> tok \<noteq> [] \<and> a_headerName a = Some ''X-API-Key''
         \<and> applyAuthentication h (Some a) = h(''X-API-Key'' \<mapsto> tok)))
   \<and> (a_type a = ''basic'' \<and> a_username a = Some u \<and> u \<noteq> [] \<and> a_password a = Some p \<and> p \<noteq> [] \<longrightarrow>
      applyAuthentication h (Some a) =
        h(''Authorization'' \<mapsto> ''Basic '' @ toBase64 (u @ '':'' @ p)))
   \<and> applyAuthentication h None = h
   \<and> (a_type a \<noteq> ''bearer'' \<and> a_type a \<noteq> ''apiKey'' \<and> a_type a \<noteq> ''basic'' \<longrightarrow>
      applyAuthentication h (Some a) = h)
   \<and> (a_type a = ''bearer'' \<and> \<not> truthy_str (a_token a) \<longrightarrow> applyAuthentication h (Some a) = h)
   \<and> (a_type a = ''apiKey'' \<and> (\<not> truthy_str (a_token a) \<or> \<not> truthy_str (a_headerName a)) \<longrightarrow>
      applyAuthentication h (Some a) = h)
   \<and> (a_type a = ''basic'' \<and> (\<not> truthy_str (a_username a) \<or> \<not> truthy_str (a_password a)) \<longrightarrow>
      applyAuthentication h (Some a) = h)"
proof -
  have r: "loadAuthConfig env ns = Some a \<and> a_type a = ''apiKey'' \<longrightarrow>
      (\<exists>tok. a_token a = Some tok \<and> tok \<noteq> [] \<and> a_headerName a = Some ''X-API-Key''
         \<and> applyAuthentication h (Some a) = h(''X-API-Key'' \<mapsto> tok))"
  proof
    assume A: "loadAuthConfig env ns = Some a \<and> a_type a = ''apiKey''"
    then obtain tok where "a_token a = Some tok" "tok \<noteq> []" "a_headerName a = Some ''X-API-Key''"
      using loadAuthConfig_apiKey[of env ns a] by blast
    with A show "\<exists>tok. a_token a = Some tok \<and> tok \<noteq> [] \<and> a_headerName a = Some ''X-API-Key''
         \<and> applyAuthentication h (Some a) = h(''X-API-Key'' \<mapsto> tok)"
      by (simp add: applyAuthentication_def truthy_str_def)
  qed
  show ?thesis
    apply (intro conjI)
            apply (simp add: applyAuthentication_def truthy_str_def)
           apply (simp add: applyAuthentication_def truthy_str_def)
          apply (rule r)
         apply (simp add: applyAuthentication_def truthy_str_def)
        apply (simp add: applyAuthentication_def)
       apply (simp add: applyAuthentication_def)
      apply (simp add: applyAuthentication_def)
     apply (simp add: applyAuthentication_def)
    apply (simp add: applyAuthentication_def)
    done
qed

text \<open>
  The theorem at the example descriptors, and at the descriptor the resolver builds for
  \<open>petstore\<close> from the single entry \<open>PETSTORE_API_KEY=secret\<close>.
\<close>

theorem authentication_headers_witness:
  "applyAuthentication base_headers (Some bearer_desc) =
     base_headers(''Authorization'' \<mapsto> ''Bearer tok'')
   \<and> loadAuthConfig [(''PETSTORE_API_KEY'', ''secret'')] ''petstore'' = Some apiKey_desc
   \<and> applyAuthentication base_headers (Some apiKey_desc) =
       base_headers(''X-API-Key'' \<mapsto> ''secret'')
   \<and> applyAuthentication base_headers (Some basic_desc) =
       base_headers(''Authorization'' \<mapsto> ''Basic dTpw'')
   \<and> applyAuthentication base_headers None = base_headers
   \<and> applyAuthentication base_headers (Some digest_desc) = base_headers
   \<and> applyAuthentication base_headers (Some (fresh_entry ''bearer'')) = base_headers
   \<and> applyAuthentication base_headers (Some (fresh_entry ''apiKey'')) = base_headers
   \<and> applyAuthentication base_headers (Some half_basic_desc) = base_headers"
proof -
  have r: "loadAuthConfig [(''PETSTORE_API_KEY'', ''secret'')] ''petstore'' = Some apiKey_desc"
    by (simp add: loadAuthConfig_def auth_step_def classify_def match_suffix_def
        no_line_terminator_def toLowerCase_def lower_char_def store_entry_def set_field_def
        fresh_entry_def apiKey_desc_def truthy_str_def)
  have b64: "toBase64 (''u'' @ '':'' @ ''p'') = ''dTpw''"
    by (simp add: toBase64_def b64_char_def)
  have f: "a_type bearer_desc = ''bearer''" "a_token bearer_desc = Some ''tok''"
    "a_type apiKey_desc = ''apiKey''" "a_token apiKey_desc = Some ''secret''"
    "a_headerName apiKey_desc = Some ''X-API-Key''"
    "a_type basic_desc = ''basic''" "a_username basic_desc = Some ''u''"
    "a_password basic_desc = Some ''p''"
    "a_type digest_desc = ''digest''"
    "a_type half_basic_desc = ''basic''" "a_password half_basic_desc = None"
    "a_type (fresh_entry ''bearer'') = ''bearer''" "a_token (fresh_entry ''bearer'') = None"
    "a_type (fresh_entry ''apiKey'') = ''apiKey''" "a_token (fresh_entry ''apiKey'') = None"
    by (simp_all add: bearer_desc_def apiKey_desc_def basic_desc_def digest_desc_def
        half_basic_desc_def fresh_entry_def)
  from authentication_headers[of bearer_desc "''tok''" base_headers "''X-API-Key''" "[]"
      "''petstore''" "''u''" "''p''"]
    authentication_headers[of apiKey_desc "''secret''" base_headers "''X-API-Key''"
      "[(''PETSTORE_API_KEY'', ''secret'')]" "''petstore''" "''u''" "''p''"]
    authentication_headers[of basic_desc "''tok''" base_headers "''X-API-Key''" "[]"
      "''petstore''" "''u''" "''p''"]
    authentication_headers[of digest_desc "''tok''" base_headers "''X-API-Key''" "[]"
      "''petstore''" "''u''" "''p''"]
    authentication_headers[of half_basic_desc "''tok''" base_headers "''X-API-Key''" "[]"
      "''petstore''" "''u''" "''p''"]
    authentication_headers[of "fresh_entry ''bearer''" "''tok''" base_headers "''X-API-Key''"
      "[]" "''petstore''" "''u''" "''p''"]
    authentication_headers[of "fresh_entry ''apiKey''" "''tok''" base_headers "''X-API-Key''"
      "[]" "''petstore''" "''u''" "''p''"]
    r b64 f
  show ?thesis by (simp add: truthy_str_def)
qed

section \<open>Properties of the request body\<close>

lemma obj_set_new: "k \<notin> fst ` set ps \<Longrightarrow> obj_set k v ps = ps @ [(k, v)]"
  by (induction ps) auto

lemma body_loop_filter:
  "distinct (map fst (acc @ args)) \<Longrightarrow>
   body_loop P acc args = acc @ filter (\<lambda>(k, v). k \<notin> P) args"
proof (induction args arbitrary: acc)
  case Nil
  then show ?case by simp
next
  case (Cons e args)
  obtain k v where e: "e = (k, v)" by (cases e)
  show ?case
  proof (cases "k \<in> P")
    case True
    from Cons.prems e have "distinct (map fst (acc @ args))" by simp
    from Cons.IH[OF this] True e show ?thesis by simp
  next
    case False
    from Cons.prems e have new: "k \<notin> fst ` set acc" by auto
    from Cons.prems e have "distinct (map fst ((acc @ [(k, v)]) @ args))" by auto
    from Cons.IH[OF this] False e new show ?thesis by (simp add: obj_set_new)
  qed
qed

text \<open>
  Claim C4. For a tool without a request body, \<open>buildRequestBody\<close> gives \<open>null\<close>. For a
  tool with one, it gives the argument \<open>body\<close> as it is when present; else the argument
  \<open>requestBody\<close> when present; else the object of all arguments whose name is not the
  name of a declared parameter, in their order, or \<open>null\<close> when there is none. The
  request carries the value as its data unless the value is \<open>null\<close>, in which case no
  body is sent. (The arguments of a call are the properties of one object, so their
  names are distinct.)
\<close>

theorem request_body_precedence:
  "(\<not> truthy_json (t_requestBody tool) \<longrightarrow> buildRequestBody tool args = JNull)
   \<and> (truthy_json (t_requestBody tool) \<and> map_of args ''body'' = Some b \<longrightarrow>
        buildRequestBody tool args = b)
   \<and> (truthy_json (t_requestBody tool) \<and> map_of args ''body'' = None
        \<and> map_of args ''requestBody'' = Some b \<longrightarrow> buildRequestBody tool args = b)
   \<and> (truthy_json (t_requestBody tool) \<and> map_of args ''body'' = None
        \<and> map_of args ''requestBody'' = None \<and> distinct (map fst args) \<longrightarrow>
        buildRequestBody tool args =
          (if filter (\<lambda>(k, v). k \<notin> set (map p_name (t_parameters tool))) args = [] then JNull
           else JObj (filter (\<lambda>(k, v). k \<notin> set (map p_name (t_parameters tool))) args)))
   \<and> c_data (buildRequestConfig \<lparr>x_apiName = api, x_tool = tool, x_authConfig = auth\<rparr> args) =
       (if buildRequestBody tool args = JNull then None else Some (buildRequestBody tool args))"
  by (simp add: buildRequestBody_def buildRequestConfig_def Let_def body_loop_filter)

text \<open>
  The theorem at a tool without a request body, and at a tool with one called with
  \<open>body\<close>, with \<open>requestBody\<close>, with a loose field \<open>x\<close>, and with nothing but its
  path parameter.
\<close>

theorem request_body_precedence_witness:
  "buildRequestBody two_param_tool [(''x'', JNum 1)] = JNull
   \<and> c_data (buildRequestConfig example_context [(''x'', JNum 1)]) = None
   \<and> buildRequestBody body_tool
        [(''body'', JObj [(''a'', JNum 1)]), (''requestBody'', JStr ''r''), (''x'', JNum 1)]
      = JObj [(''a'', JNum 1)]
   \<and> buildRequestBody body_tool [(''requestBody'', JStr ''r''), (''x'', JNum 1)] = JStr ''r''
   \<and> buildRequestBody body_tool [(''id'', JNum 42), (''x'', JNum 1)] = JObj [(''x'', JNum 1)]
   \<and> buildRequestBody body_tool [(''id'', JNum 42)] = JNull
   \<and> c_data (buildRequestConfig \<lparr>x_apiName = ''ns'', x_tool = body_tool, x_authConfig = None\<rparr>
               [(''id'', JNum 42)]) = None"
proof -
  have no: "\<not> truthy_json (t_requestBody two_param_tool)"
    by (simp add: two_param_tool_def truthy_json_def)
  have yes: "truthy_json (t_requestBody body_tool)"
    by (simp add: body_tool_def truthy_json_def)
  have names: "set (map p_name (t_parameters body_tool)) = {''id''}"
    by (simp add: body_tool_def id_param_def)
  have ctx: "example_context = \<lparr>x_apiName = ''ns'', x_tool = two_param_tool, x_authConfig = None\<rparr>"
    by (simp add: example_context_def)
  from request_body_precedence[of two_param_tool "[(''x'', JNum 1)]" JNull "''ns''" None]
    request_body_precedence[of body_tool
      "[(''body'', JObj [(''a'', JNum 1)]), (''requestBody'', JStr ''r''), (''x'', JNum 1)]"
      "JObj [(''a'', JNum 1)]" "''ns''" None]
    request_body_precedence[of body_tool "[(''requestBody'', JStr ''r''), (''x'', JNum 1)]"
      "JStr ''r''" "''ns''" None]
    request_body_precedence[of body_tool "[(''id'', JNum 42), (''x'', JNum 1)]" JNull "''ns''" None]
    request_body_precedence[of body_tool "[(''id'', JNum 42)]" JNull "''ns''" None]
    no yes names ctx
  show ?thesis by simp
qed

section \<open>Properties of the response text and of the executor\<close>

text \<open>
  Claim C7. The text of a response is the line \<open>Status: {code} {text}\<close>, an empty line,
  the line \<open>Headers:\<close> and the headers, one \<open>key: value\<close> per line in the order
  received, an empty line, the line \<open>Body:\<close> and the body. The body is
  \<open>(empty response)\<close> for a payload that is absent or \<open>null\<close>, the text itself for a
  text payload, and for any other payload its JSON form with a gap of two spaces: a
  non-empty object or array has each member on a line of its own, indented by two
  spaces (and the members of a nested value by two more).
\<close>

theorem response_rendering:
  "\<exists>body.
     formatResponse response =
       ''Status: '' @ show_nat (s_status response) @ '' '' @ s_statusText response
       @ ''\<newline>\<newline>Headers:\<newline>''
       @ join ''\<newline>'' (map (\<lambda>(key, val). key @ '': '' @ js_String val) (s_headers response))
       @ ''\<newline>\<newline>Body:\<newline>'' @ body
     \<and> (s_data response = None \<or> s_data response = Some JNull \<longrightarrow> body = ''(empty response)'')
     \<and> (\<forall>text. s_data response = Some (JStr text) \<longrightarrow> body = text)
     \<and> (\<forall>v. s_data response = Some v \<and> v \<noteq> JNull \<and> (\<forall>text. v \<noteq> JStr text) \<longrightarrow>
            body = serialize ''  '' [] v)
     \<and> (\<forall>kvs. s_data response = Some (JObj kvs) \<and> kvs \<noteq> [] \<longrightarrow>
            body = ''{\<newline>  ''
                 @ join '',\<newline>  '' (map (\<lambda>(k, v). quoteJSON k @ '': '' @ serialize ''  '' ''  '' v) kvs)
                 @ ''\<newline>}'')
     \<and> (\<forall>xs. s_data response = Some (JArr xs) \<and> xs \<noteq> [] \<longrightarrow>
            body = ''[\<newline>  '' @ join '',\<newline>  '' (map (serialize ''  '' ''  '') xs) @ ''\<newline>]'')"
proof (cases "s_data response")
  case None
  then show ?thesis by (simp add: formatResponse_def)
next
  case (Some v)
  then show ?thesis by (cases v) (simp_all add: formatResponse_def stringify2_def)
qed

text \<open>
  The theorem at the four example responses: an object, a text, an array and a null
  payload.
\<close>

theorem response_rendering_witness:
  "formatResponse json_response =
     ''Status: 200 OK\<newline>\<newline>Headers:\<newline>content-type: application/json\<newline>set-cookie: a=1,b=2\<newline>\<newline>Body:\<newline>{\<newline>  \"id\": 42,\<newline>  \"tags\": [\<newline>    \"x\"\<newline>  ]\<newline>}''
   \<and> formatResponse text_response =
     ''Status: 200 OK\<newline>\<newline>Headers:\<newline>content-type: text/plain\<newline>\<newline>Body:\<newline>pong''
   \<and> formatResponse list_response =
     ''Status: 200 OK\<newline>\<newline>Headers:\<newline>\<newline>\<newline>Body:\<newline>[\<newline>  1,\<newline>  false\<newline>]''
   \<and> formatResponse empty_response =
     ''Status: 204 No Content\<newline>\<newline>Headers:\<newline>\<newline>\<newline>Body:\<newline>(empty response)''"
proof -
  have d: "s_data json_response = Some (JObj [(''id'', JNum 42), (''tags'', JArr [JStr ''x''])])"
    "s_data text_response = Some (JStr ''pong'')"
    "s_data list_response = Some (JArr [JNum 1, JBool False])"
    "s_data empty_response = Some JNull"
    by (simp_all add: json_response_def text_response_def list_response_def empty_response_def)
  from response_rendering[of json_response] d(1) obtain b1 where
    f1: "formatResponse json_response =
          ''Status: '' @ show_nat (s_status json_response) @ '' '' @ s_statusText json_response
          @ ''\<newline>\<newline>Headers:\<newline>''
          @ join ''\<newline>'' (map (\<lambda>(key, val). key @ '': '' @ js_String val) (s_headers json_response))
          @ ''\<newline>\<newline>Body:\<newline>'' @ b1"
    and b1: "b1 = ''{\<newline>  ''
                 @ join '',\<newline>  '' (map (\<lambda>(k, v). quoteJSON k @ '': '' @ serialize ''  '' ''  '' v)
                                     [(''id'', JNum 42), (''tags'', JArr [JStr ''x''])])
                 @ ''\<newline>}''"
    by auto
  from response_rendering[of text_response] d(2) obtain b2 where
    f2: "formatResponse text_response =
          ''Status: '' @ show_nat (s_status text_response) @ '' '' @ s_statusText text_response
          @ ''\<newline>\<newline>Headers:\<newline>''
          @ join ''\<newline>'' (map (\<lambda>(key, val). key @ '': '' @ js_String val) (s_headers text_response))
          @ ''\<newline>\<newline>Body:\<newline>'' @ b2"
    and b2: "b2 = ''pong''"
    by auto
  from response_rendering[of list_response] d(3) obtain b3 where
    f3: "formatResponse list_response =
          ''Status: '' @ show_nat (s_status list_response) @ '' '' @ s_statusText list_response
          @ ''\<newline>\<newline>Headers:\<newline>''
          @ join ''\<newline>'' (map (\<lambda>(key, val). key @ '': '' @ js_String val) (s_headers list_response))
          @ ''\<newline>\<newline>Body:\<newline>'' @ b3"
    and b3: "b3 = ''[\<newline>  '' @ join '',\<newline>  '' (map (serialize ''  '' ''  '') [JNum 1, JBool False])
                 @ ''\<newline>]''"
    by auto
  from response_rendering[of empty_response] d(4) obtain b4 where
    f4: "formatResponse empty_response =
          ''Status: '' @ show_nat (s_status empty_response) @ '' '' @ s_statusText empty_response
          @ ''\<newline>\<newline>Headers:\<newline>''
          @ join ''\<newline>'' (map (\<lambda>(key, val). key @ '': '' @ js_String val) (s_headers empty_response))
          @ ''\<newline>\<newline>Body:\<newline>'' @ b4"
    and b4: "b4 = ''(empty response)''"
    by auto
  show ?thesis
    unfolding f1 f2 f3 f4 b1 b2 b3 b4
    by (simp add: json_response_def text_response_def list_response_def empty_response_def
        quoteJSON_def quote_char_def show_int_def show_nat.simps digit_char_def)
qed

text \<open>
  Claim C2, as the code has it. \<open>executeRequest\<close> always returns a text. When the HTTP
  library resolves, the text is the rendering of the response. When it throws one of its
  own errors with a server response, the text is \<open>HTTP Error {status}: \<close> followed by the
  JSON form (gap of two spaces) of the response payload, or of the error's message when
  the payload is absent or falsy; the status is written \<open>Unknown\<close> when it is 0. When
  it throws one of its own errors with no response (network failure, timeout), the text
  is \<open>HTTP Error Unknown: \<close> followed by the message as a JSON string. Only what is
  thrown otherwise gives \<open>Request failed: {message}\<close>.
\<close>

theorem execute_never_throws:
  "(\<exists>text. executeRequest axios context args = Inr text)
   \<and> (\<forall>response. axios (buildRequestConfig context args) = Inr response \<longrightarrow>
         executeRequest axios context args = Inr (formatResponse response))
   \<and> (\<forall>st payload msg.
         axios (buildRequestConfig context args) = Inl (AxiosError (Some (st, payload)) msg) \<longrightarrow>
         executeRequest axios context args =
           Inr (''HTTP Error '' @ (if st \<noteq> 0 then show_nat st else ''Unknown'') @ '': ''
                @ stringify2 (case payload of
                                None \<Rightarrow> JStr msg
                              | Some d \<Rightarrow> if truthy d then d else JStr msg)))
   \<and> (\<forall>msg. axios (buildRequestConfig context args) = Inl (AxiosError None msg) \<longrightarrow>
         executeRequest axios context args = Inr (''HTTP Error Unknown: '' @ quoteJSON msg))
   \<and> (\<forall>msg. axios (buildRequestConfig context args) = Inl (OtherError msg) \<longrightarrow>
         executeRequest axios context args = Inr (''Request failed: '' @ msg))
   \<and> (\<forall>v. axios (buildRequestConfig context args) = Inl (NonError v) \<longrightarrow>
         executeRequest axios context args = Inr (''Request failed: '' @ js_String v))"
  by (auto simp: executeRequest_def try_block_def catch_block_def stringify2_def
      split: sum.splits thrown.splits option.splits)

text \<open>
  The theorem at a 404 answer with the payload \<open>{"message": "not found"}\<close>, at a
  network error without response, at an error that is not the HTTP library's, at a
  thrown value that is not an error, and at a call that succeeds.
\<close>

theorem execute_never_throws_witness:
  "executeRequest
     (\<lambda>config. Inl (AxiosError (Some (404, Some (JObj [(''message'', JStr ''not found'')])))
                  ''Request failed with status code 404''))
     example_context [(''id'', JNum 42)]
   = Inr ''HTTP Error 404: {\<newline>  \"message\": \"not found\"\<newline>}''
   \<and> executeRequest (\<lambda>config. Inl (AxiosError None ''Network Error'')) example_context
       [(''id'', JNum 42)]
   = Inr ''HTTP Error Unknown: \"Network Error\"''
   \<and> executeRequest (\<lambda>config. Inl (OtherError ''boom'')) example_context [(''id'', JNum 42)]
   = Inr ''Request failed: boom''
   \<and> executeRequest (\<lambda>config. Inl (NonError (JStr ''oops''))) example_context
       [(''id'', JNum 42)]
   = Inr ''Request failed: oops''
   \<and> executeRequest (\<lambda>config. Inr empty_response) example_context [(''id'', JNum 42)]
   = Inr (formatResponse empty_response)"
  using execute_never_throws[of
      "\<lambda>config. Inl (AxiosError (Some (404, Some (JObj [(''message'', JStr ''not found'')])))
                  ''Request failed with status code 404'')"
      example_context "[(''id'', JNum 42)]"]
    execute_never_throws[of "\<lambda>config. Inl (AxiosError None ''Network Error'')" example_context
      "[(''id'', JNum 42)]"]
    execute_never_throws[of "\<lambda>config. Inl (OtherError ''boom'')" example_context
      "[(''id'', JNum 42)]"]
    execute_never_throws[of "\<lambda>config. Inl (NonError (JStr ''oops''))" example_context
      "[(''id'', JNum 42)]"]
    execute_never_throws[of "\<lambda>config. Inr empty_response" example_context "[(''id'', JNum 42)]"]
  by (simp add: stringify2_def quoteJSON_def quote_char_def show_nat.simps digit_char_def)

text \<open>
  Claim C2 as stated fails for a failure with no response: a timeout of the HTTP library
  gives a text that starts with \<open>HTTP Error Unknown: \<close>, not \<open>Request failed: \<close>.
\<close>

theorem execute_never_throws_counterexample:
  "executeRequest (\<lambda>config. Inl (AxiosError None ''timeout of 30000ms exceeded''))
     example_context [(''id'', JNum 42)]
   = Inr ''HTTP Error Unknown: \"timeout of 30000ms exceeded\"''
   \<and> executeRequest (\<lambda>config. Inl (AxiosError None ''timeout of 30000ms exceeded''))
     example_context [(''id'', JNum 42)]
   \<noteq> Inr ''Request failed: timeout of 30000ms exceeded''"
  by (simp add: executeRequest_def try_block_def catch_block_def stringify2_def quoteJSON_def
      quote_char_def)

section \<open>Properties of the URL construction\<close>

lemma replace_first_no_open:
  "CHR ''{'' \<notin> set s \<Longrightarrow> replace_first (CHR ''{'' # pat) rep s = s"
  by (induction s) auto

lemma replace_first_skip:
  "CHR ''{'' \<notin> set pre \<Longrightarrow>
   replace_first (CHR ''{'' # pat) rep (pre @ s) = pre @ replace_first (CHR ''{'' # pat) rep s"
  by (induction pre) auto

lemma starts_id: "startsWith ''id}'' (n @ ''}'') \<longleftrightarrow> n = ''id''"
proof (cases n)
  case Nil
  then show ?thesis by simp
next
  case (Cons a n1)
  show ?thesis
  proof (cases n1)
    case Nil
    with Cons show ?thesis by simp
  next
    case (Cons b n2)
    show ?thesis
    proof (cases n2)
      case Nil
      with \<open>n = a # n1\<close> \<open>n1 = b # n2\<close> show ?thesis by auto
    next
      case (Cons c n3)
      with \<open>n = a # n1\<close> \<open>n1 = b # n2\<close> show ?thesis by (cases n3) auto
    qed
  qed
qed

lemma replace_pet:
  assumes "CHR ''{'' \<notin> set B"
  shows "replace_first (''{'' @ n @ ''}'') rep (B @ ''/pet/{id}'') =
           (if n = ''id'' then B @ ''/pet/'' @ rep else B @ ''/pet/{id}'')"
proof -
  have "replace_first (CHR ''{'' # n @ ''}'') rep ''/pet/{id}'' =
          (if n = ''id'' then ''/pet/'' @ rep else ''/pet/{id}'')"
    using starts_id[of n] by (simp add: replace_first_no_open)
  with replace_first_skip[OF assms, of "n @ ''}''" rep "''/pet/{id}''"]
  show ?thesis by simp
qed

lemma hex_upper_no_open: "n < 16 \<Longrightarrow> hex_upper n \<noteq> CHR ''{''"
proof -
  assume "n < 16"
  then have "hex_upper n \<in> set ''0123456789ABCDEF''"
    unfolding hex_upper_def by (intro nth_mem) simp
  then show ?thesis by auto
qed

lemma encode_char_no_open: "CHR ''{'' \<notin> set (encode_char c)"
proof -
  have "(of_char c :: nat) div 16 < 16"
    using nat_of_char_less_256[of c] by arith
  then have h1: "hex_upper ((of_char c :: nat) div 16) \<noteq> CHR ''{''"
    by (rule hex_upper_no_open)
  have h2: "hex_upper ((of_char c :: nat) mod 16) \<noteq> CHR ''{''"
    by (rule hex_upper_no_open) simp
  have h3: "unreserved c \<Longrightarrow> c \<noteq> CHR ''{''"
    by (auto simp: unreserved_def isAlnum_def)
  show ?thesis
    using h1 h2 h3 by (auto simp: encode_char_def)
qed

lemma encodeURIComponent_no_open: "CHR ''{'' \<notin> set (encodeURIComponent s)"
  by (auto simp: encodeURIComponent_def encode_char_no_open)


lemma step_inactive: "\<not> active args q \<Longrightarrow> buildUrl_step args q url = url"
  by (auto simp: active_def buildUrl_step_def split: option.splits)

lemma loop_active_only:
  "buildUrl_loop args url ps = buildUrl_loop args url (filter (active args) ps)"
  by (induction ps arbitrary: url) (simp_all add: step_inactive)

lemma step_closed:
  "CHR ''{'' \<notin> set url \<Longrightarrow> buildUrl_step args q url = url"
  by (simp add: buildUrl_step_def replace_first_no_open split: option.splits)

lemma loop_closed:
  "CHR ''{'' \<notin> set url \<Longrightarrow> buildUrl_loop args url ps = url"
  by (induction ps) (simp_all add: step_closed)

lemma step_pet:
  assumes "CHR ''{'' \<notin> set B" and "map_of args ''id'' = Some v"
  shows "buildUrl_step args q (B @ ''/pet/{id}'') =
           (if p_in q = ''path'' \<and> p_name q = ''id''
            then B @ ''/pet/'' @ encodeURIComponent (js_String v) else B @ ''/pet/{id}'')"
  using assms replace_pet[OF assms(1), of "p_name q"]
  by (auto simp: buildUrl_step_def split: option.splits)

lemma loop_pet:
  assumes "CHR ''{'' \<notin> set B" and "map_of args ''id'' = Some v"
    and "\<exists>q \<in> set ps. p_in q = ''path'' \<and> p_name q = ''id''"
  shows "buildUrl_loop args (B @ ''/pet/{id}'') ps = B @ ''/pet/'' @ encodeURIComponent (js_String v)"
  using assms(3)
proof (induction ps)
  case Nil
  then show ?case by simp
next
  case (Cons q ps)
  show ?case
  proof (cases "p_in q = ''path'' \<and> p_name q = ''id''")
    case True
    have "CHR ''{'' \<notin> set (B @ ''/pet/'' @ encodeURIComponent (js_String v))"
      using assms(1) encodeURIComponent_no_open by simp
    have "buildUrl_step args q (B @ ''/pet/{id}'') =
            B @ ''/pet/'' @ encodeURIComponent (js_String v)"
      by (simp only: step_pet[OF assms(1,2)] if_P[OF True])
    with loop_closed[OF \<open>CHR ''{'' \<notin> set (B @ ''/pet/'' @ encodeURIComponent (js_String v))\<close>]
    show ?thesis by simp
  next
    case False
    with Cons.prems have "\<exists>q \<in> set ps. p_in q = ''path'' \<and> p_name q = ''id''" by auto
    have "buildUrl_step args q (B @ ''/pet/{id}'') = B @ ''/pet/{id}''"
      by (simp only: step_pet[OF assms(1,2)] if_not_P[OF False])
    with Cons.IH[OF \<open>\<exists>q \<in> set ps. p_in q = ''path'' \<and> p_name q = ''id''\<close>]
    show ?thesis by simp
  qed
qed

lemma strip_no_open: "CHR ''{'' \<notin> set s \<Longrightarrow> CHR ''{'' \<notin> set (strip_trailing_slash s)"
  by (auto simp: strip_trailing_slash_def dest: in_set_butlastD)

lemma starts_shorter:
  assumes "pre \<noteq> []" and "pat \<noteq> []" and "startsWith (pre @ pat @ post) pat"
  shows "startsWith (pre @ butlast pat) pat"
proof -
  have "pre @ pat @ post = (pre @ butlast pat) @ (last pat # post)"
    using assms(2) by simp
  moreover have "length pat \<le> length (pre @ butlast pat)"
    using assms(1,2) by (cases pre) auto
  ultimately have "take (length pat) (pre @ pat @ post) = take (length pat) (pre @ butlast pat)"
    by (simp only: take_append) simp
  with assms(3) show ?thesis by (simp add: startsWith_take)
qed

lemma replace_first_at_first:
  assumes "pat \<noteq> []" and "\<not> str_includes (pre @ butlast pat) pat"
  shows "replace_first pat rep (pre @ pat @ post) = pre @ rep @ post"
  using assms(2)
proof (induction pre)
  case Nil
  from assms(1) obtain c cs where "pat @ post = c # cs" by (cases pat) auto
  then have "replace_first pat rep (pat @ post) = rep @ drop (length pat) (pat @ post)"
    by (metis replace_first.simps(2) startsWith_append)
  then show ?case by simp
next
  case (Cons c pre)
  from Cons.prems have a: "\<not> startsWith ((c # pre) @ butlast pat) pat"
    and b: "\<not> str_includes (pre @ butlast pat) pat" by simp_all
  from a starts_shorter[OF _ assms(1), of "c # pre" post]
  have "\<not> startsWith (c # pre @ pat @ post) pat" by auto
  with Cons.IH[OF b] show ?case by simp
qed

text \<open>
  Where the base URL holds no \<open>{\<close>, the URL of a tool with the path template
  \<open>/pet/{id}\<close>, a path parameter \<open>id\<close> among its parameters and an argument \<open>id\<close> of
  value \<open>v\<close> is the base URL (less its trailing slash) followed by \<open>/pet/\<close> and the
  percent-encoded text of \<open>v\<close>, which is \<open>42\<close> for the number 42, whatever other arguments
  are present and whatever the order, the number and the kinds of the entries of the
  parameter list. A round of the loop for a supplied path parameter replaces the first
  occurrence of \<open>{name}\<close> by the percent-encoded text of the value; a round for a
  parameter that the arguments do not supply leaves the URL as it is.
\<close>

lemma pet_url_plain_base:
  "(t_path tool = ''/pet/{id}'' \<and> CHR ''{'' \<notin> set (t_baseUrl tool)
      \<and> (\<exists>q \<in> set (t_parameters tool). p_in q = ''path'' \<and> p_name q = ''id'')
      \<and> map_of args ''id'' = Some v \<longrightarrow>
      buildUrl tool args =
        strip_trailing_slash (t_baseUrl tool) @ ''/pet/'' @ encodeURIComponent (js_String v))
   \<and> encodeURIComponent (js_String (JNum 42)) = ''42''
   \<and> (p_in p = ''path'' \<and> map_of args (p_name p) = Some v
        \<and> \<not> str_includes (pre @ ''{'' @ p_name p) (''{'' @ p_name p @ ''}'') \<longrightarrow>
        buildUrl_step args p (pre @ ''{'' @ p_name p @ ''}'' @ post) =
          pre @ encodeURIComponent (js_String v) @ post)
   \<and> (map_of args (p_name p) = None \<longrightarrow> buildUrl_step args p url = url)
   \<and> ((\<forall>q \<in> set (t_parameters tool). p_in q = ''path'' \<longrightarrow> map_of args (p_name q) = None) \<longrightarrow>
        buildUrl tool args = strip_trailing_slash (t_baseUrl tool) @ t_path tool)"
proof (intro conjI impI)
  assume a: "t_path tool = ''/pet/{id}'' \<and> CHR ''{'' \<notin> set (t_baseUrl tool)
      \<and> (\<exists>q \<in> set (t_parameters tool). p_in q = ''path'' \<and> p_name q = ''id'')
      \<and> map_of args ''id'' = Some v"
  then have "CHR ''{'' \<notin> set (strip_trailing_slash (t_baseUrl tool))"
    by (simp add: strip_no_open)
  from loop_pet[OF this, of args v "t_parameters tool"] a
  show "buildUrl tool args =
        strip_trailing_slash (t_baseUrl tool) @ ''/pet/'' @ encodeURIComponent (js_String v)"
    by (simp add: buildUrl_def)
next
  show "encodeURIComponent (js_String (JNum 42)) = ''42''"
    by (simp add: encodeURIComponent_def encode_char_def unreserved_def isAlnum_def
        show_int_def show_nat.simps digit_char_def)
next
  assume a: "p_in p = ''path'' \<and> map_of args (p_name p) = Some v
        \<and> \<not> str_includes (pre @ ''{'' @ p_name p) (''{'' @ p_name p @ ''}'')"
  have "butlast (''{'' @ p_name p @ ''}'') = ''{'' @ p_name p"
    by (simp add: butlast_append)
  with a replace_first_at_first[of "''{'' @ p_name p @ ''}''" pre
      "encodeURIComponent (js_String v)" post]
  show "buildUrl_step args p (pre @ ''{'' @ p_name p @ ''}'' @ post) =
          pre @ encodeURIComponent (js_String v) @ post"
    by (simp add: buildUrl_step_def)
next
  assume "map_of args (p_name p) = None"
  then show "buildUrl_step args p url = url" by (simp add: buildUrl_step_def)
next
  assume "\<forall>q \<in> set (t_parameters tool). p_in q = ''path'' \<longrightarrow> map_of args (p_name q) = None"
  then have "filter (active args) (t_parameters tool) = []"
    by (auto simp: active_def filter_empty_conv)
  then show "buildUrl tool args = strip_trailing_slash (t_baseUrl tool) @ t_path tool"
    by (simp add: buildUrl_def loop_active_only[of args _ "t_parameters tool"])
qed

lemma pet_url_plain_base_example:
  "buildUrl pet_tool [(''verbose'', JBool True), (''id'', JNum 42)] =
     ''https://petstore.example.com/v2/pet/42''
   \<and> buildUrl_step [(''id'', JStr ''a b'')] id_param (''/x/'' @ ''{'' @ ''id'' @ ''}'' @ ''/y/{id}'') =
     ''/x/a%20b/y/{id}''
   \<and> buildUrl_step [] id_param ''/x/{id}'' = ''/x/{id}''
   \<and> buildUrl pet_tool [] = ''https://petstore.example.com/v2/pet/{id}''"
proof -
  have t: "t_path pet_tool = ''/pet/{id}''"
    "t_baseUrl pet_tool = ''https://petstore.example.com/v2/''"
    "t_parameters pet_tool = [id_param, verbose_param, id_param]"
    by (simp_all add: pet_tool_def)
  have p: "p_in id_param = ''path''" "p_name id_param = ''id''" "p_in verbose_param = ''query''"
    by (simp_all add: id_param_def verbose_param_def)
  have e: "encodeURIComponent (js_String (JStr ''a b'')) = ''a%20b''"
    by (simp add: encodeURIComponent_def encode_char_def unreserved_def isAlnum_def hex_upper_def)
  from pet_url_plain_base[of pet_tool "[(''verbose'', JBool True), (''id'', JNum 42)]" "JNum 42"
      id_param "''/x/''" "''/y/{id}''" "''/x/{id}''"]
    pet_url_plain_base[of pet_tool "[(''id'', JStr ''a b'')]" "JStr ''a b''" id_param "''/x/''"
      "''/y/{id}''" "''/x/{id}''"]
    pet_url_plain_base[of pet_tool "[]" "JNum 42" id_param "''/x/''" "''/y/{id}''" "''/x/{id}''"]
    t p e
  show ?thesis by (simp add: strip_trailing_slash_def)
qed

text \<open>
  Claim C6 at the input where the code departs from it. The claim asks that for the path
  template \<open>/pet/{id}\<close> and the argument \<open>id = 42\<close> the URL end in \<open>/pet/42\<close>. Under the
  server URL \<open>https://{id}.example.com\<close>, whose variable has the name of the path
  parameter, the substitution, which works on the server URL and the path together,
  takes the first \<open>{id}\<close>, the one of the server URL: the argument lands in the host name
  and the placeholder of the path stays.
\<close>

theorem path_substitution_server_variable:
  "t_path server_var_tool = ''/pet/{id}''
   \<and> t_parameters server_var_tool = [id_param]
   \<and> buildUrl server_var_tool [(''id'', JNum 42)] = ''https://42.example.com/pet/{id}''"
  by (simp add: server_var_tool_def pet_tool_def id_param_def buildUrl_def buildUrl_step_def
      strip_trailing_slash_def encodeURIComponent_def encode_char_def unreserved_def
      isAlnum_def show_int_def show_nat.simps digit_char_def)

lemma render_append: "render (xs @ ys) = render xs @ render ys"
  by (induction xs rule: render.induct) simp_all

lemma replace_first_prefix: "pat \<noteq> [] \<Longrightarrow> replace_first pat rep (pat @ post) = rep @ post"
proof -
  assume "pat \<noteq> []"
  then obtain c cs where "pat @ post = c # cs" by (cases pat) auto
  then have "replace_first pat rep (pat @ post) = rep @ drop (length pat) (pat @ post)"
    by (metis replace_first.simps(2) startsWith_append)
  then show ?thesis by simp
qed

lemma hole_mismatch:
  "CHR ''}'' \<notin> set m \<Longrightarrow> CHR ''}'' \<notin> set n \<Longrightarrow> startsWith (m @ ''}'' @ rest) (n @ ''}'')
     \<Longrightarrow> m = n"
proof (induction m arbitrary: n)
  case Nil
  then show ?case by (cases n) auto
next
  case (Cons a m)
  then show ?case by (cases n) auto
qed

lemma replace_render:
  assumes "well_formed segs" and "CHR ''}'' \<notin> set n"
  shows "replace_first (''{'' @ n @ ''}'') r (render segs) = render (subst_first n r segs)"
  using assms(1)
proof (induction segs)
  case Nil
  then show ?case by simp
next
  case (Cons x segs)
  then have wf: "wf_seg x" and rest: "well_formed segs"
    by (simp_all add: well_formed_def)
  note IH = Cons.IH[OF rest]
  show ?case
  proof (cases x)
    case (Lit s)
    with wf have "CHR ''{'' \<notin> set s" by simp
    from replace_first_skip[OF this, of "n @ ''}''" r "render segs"] IH Lit
    show ?thesis by simp
  next
    case (Hole m)
    show ?thesis
    proof (cases "m = n")
      case True
      from replace_first_prefix[of "''{'' @ n @ ''}''" r "render segs"] Hole True
      show ?thesis by simp
    next
      case False
      from wf Hole have m: "CHR ''{'' \<notin> set m" "CHR ''}'' \<notin> set m" by simp_all
      have "\<not> startsWith (m @ ''}'' @ render segs) (n @ ''}'')"
        using hole_mismatch[OF m(2) assms(2)] False by blast
      then have "replace_first (''{'' @ n @ ''}'') r (render (x # segs)) =
                CHR ''{'' # replace_first (''{'' @ n @ ''}'') r (m @ ''}'' @ render segs)"
        using Hole by simp
      also have "replace_first (''{'' @ n @ ''}'') r (m @ ''}'' @ render segs) =
                 (m @ ''}'') @ replace_first (''{'' @ n @ ''}'') r (render segs)"
        using replace_first_skip[of "m @ ''}''" "n @ ''}''" r "render segs"] m(1) by simp
      finally show ?thesis using IH Hole False by simp
    qed
  qed
qed

lemma replace_render_cons:
  "well_formed segs \<Longrightarrow> CHR ''}'' \<notin> set n \<Longrightarrow>
   replace_first (CHR ''{'' # n @ ''}'') r (render segs) = render (subst_first n r segs)"
  using replace_render[of segs n r] by simp

lemma subst_first_wf:
  "well_formed segs \<Longrightarrow> CHR ''{'' \<notin> set r \<Longrightarrow> well_formed (subst_first n r segs)"
  by (induction segs) (auto simp: well_formed_def)

lemma seg_step_wf: "well_formed segs \<Longrightarrow> well_formed (seg_step args q segs)"
  by (auto simp: seg_step_def subst_first_wf encodeURIComponent_no_open split: option.splits)

lemma step_render:
  assumes "well_formed segs" and "active args q \<longrightarrow> CHR ''}'' \<notin> set (p_name q)"
  shows "buildUrl_step args q (render segs) = render (seg_step args q segs)"
  using assms
  by (auto simp: buildUrl_step_def seg_step_def active_def replace_render_cons
      split: option.splits)

lemma loop_render:
  assumes "well_formed segs" and "\<forall>q \<in> set ps. active args q \<longrightarrow> CHR ''}'' \<notin> set (p_name q)"
  shows "buildUrl_loop args (render segs) ps = render (seg_loop args segs ps)
         \<and> well_formed (seg_loop args segs ps)"
  using assms
proof (induction ps arbitrary: segs)
  case Nil
  then show ?case by simp
next
  case (Cons q ps)
  from Cons.prems have s: "buildUrl_step args q (render segs) = render (seg_step args q segs)"
    by (intro step_render) simp_all
  from Cons.prems have "well_formed (seg_step args q segs)" by (simp add: seg_step_wf)
  from Cons.IH[OF this] Cons.prems(2) s show ?case by simp
qed


lemma same_or_filled_refl: "same_or_filled n x x"
  by (simp add: same_or_filled_def)

lemma same_or_filled_trans:
  "same_or_filled n x y \<Longrightarrow> same_or_filled n y z \<Longrightarrow> same_or_filled n x z"
  by (auto simp: same_or_filled_def)

lemma all2_refl: "list_all2 (same_or_filled n) xs xs"
  by (simp add: list_all2_refl same_or_filled_refl)

lemma all2_trans:
  "list_all2 (same_or_filled n) xs ys \<Longrightarrow> list_all2 (same_or_filled n) ys zs
     \<Longrightarrow> list_all2 (same_or_filled n) xs zs"
  by (rule list_all2_trans[of "same_or_filled n" "same_or_filled n" "same_or_filled n"])
     (auto intro: same_or_filled_trans)

lemma subst_other:
  "m \<noteq> n \<Longrightarrow> list_all2 (same_or_filled n) xs (subst_first m r xs)"
  by (induction xs) (auto simp: same_or_filled_def all2_refl)

lemma subst_first_at:
  "Hole n \<notin> set P \<Longrightarrow> subst_first n r (P @ Hole n # C) = P @ Lit r # C"
  by (induction P) auto

lemma all2_no_hole:
  "list_all2 (same_or_filled n) P P' \<Longrightarrow> Hole n \<notin> set P \<Longrightarrow> Hole n \<notin> set P'"
  by (induction rule: list_all2_induct) (auto simp: same_or_filled_def)

lemma seg_step_other:
  assumes "\<not> (active args q \<and> p_name q = n)"
  shows "list_all2 (same_or_filled n) xs (seg_step args q xs)"
  using assms
  by (auto simp: seg_step_def active_def subst_other all2_refl split: option.splits)

lemma seg_loop_other:
  assumes "filter (\<lambda>q. active args q \<and> p_name q = n) ps = []"
  shows "list_all2 (same_or_filled n) xs (seg_loop args xs ps)"
  using assms
proof (induction ps arbitrary: xs)
  case Nil
  then show ?case by (simp add: all2_refl)
next
  case (Cons q ps)
  then have q: "\<not> (active args q \<and> p_name q = n)"
    and r: "filter (\<lambda>q. active args q \<and> p_name q = n) ps = []"
    by (auto split: if_splits)
  from all2_trans[OF seg_step_other[OF q, of xs] Cons.IH[OF r, of "seg_step args q xs"]]
  show ?case by simp
qed

lemma seg_loop_first:
  assumes "filter (\<lambda>q. active args q \<and> p_name q = n) ps = [p]"
    and "map_of args n = Some v" and "Hole n \<notin> set P"
  shows "\<exists>P' C'. seg_loop args (P @ Hole n # C) ps
                    = P' @ Lit (encodeURIComponent (js_String v)) # C'
               \<and> list_all2 (same_or_filled n) P P' \<and> list_all2 (same_or_filled n) C C'"
  using assms(1,3)
proof (induction ps arbitrary: P C)
  case Nil
  then show ?case by simp
next
  case (Cons q ps)
  show ?case
  proof (cases "active args q \<and> p_name q = n")
    case True
    with Cons.prems(1) have r: "filter (\<lambda>q. active args q \<and> p_name q = n) ps = []"
      by simp
    from True assms(2) have "seg_step args q (P @ Hole n # C) =
        subst_first n (encodeURIComponent (js_String v)) (P @ Hole n # C)"
      by (simp add: seg_step_def active_def)
    then have s: "seg_step args q (P @ Hole n # C) =
        P @ Lit (encodeURIComponent (js_String v)) # C"
      by (simp add: subst_first_at[OF Cons.prems(2)])
    from seg_loop_other[OF r, of "P @ Lit (encodeURIComponent (js_String v)) # C"]
    obtain P' y C' where d: "seg_loop args (P @ Lit (encodeURIComponent (js_String v)) # C) ps
          = P' @ y # C'" "list_all2 (same_or_filled n) P P'"
        "same_or_filled n (Lit (encodeURIComponent (js_String v))) y"
        "list_all2 (same_or_filled n) C C'"
      by (auto simp: list_all2_append1 list_all2_Cons1)
    from d(3) have "y = Lit (encodeURIComponent (js_String v))"
      by (simp add: same_or_filled_def)
    with d s show ?thesis by auto
  next
    case False
    with Cons.prems(1) have r: "filter (\<lambda>q. active args q \<and> p_name q = n) ps = [p]"
      by simp
    from seg_step_other[OF False, of "P @ Hole n # C"]
    obtain P1 y C1 where d: "seg_step args q (P @ Hole n # C) = P1 @ y # C1"
        "list_all2 (same_or_filled n) P P1" "same_or_filled n (Hole n) y"
        "list_all2 (same_or_filled n) C C1"
      by (auto simp: list_all2_append1 list_all2_Cons1)
    from d(3) have y: "y = Hole n" by (simp add: same_or_filled_def)
    have "Hole n \<notin> set P1" by (rule all2_no_hole[OF d(2) Cons.prems(2)])
    from Cons.IH[OF r this, of C1]
    obtain P' C' where e: "seg_loop args (P1 @ Hole n # C1) ps
                    = P' @ Lit (encodeURIComponent (js_String v)) # C'"
        "list_all2 (same_or_filled n) P1 P'" "list_all2 (same_or_filled n) C1 C'"
      by blast
    from e d y all2_trans[OF d(2) e(2)] all2_trans[OF d(4) e(3)]
    show ?thesis by auto
  qed
qed

lemma all2_later_holes:
  assumes "list_all2 (same_or_filled n) C C'"
  shows "length C' = length C \<and> (\<forall>j < length C. C ! j = Hole n \<longrightarrow> C' ! j = Hole n)"
  using assms by (auto simp: list_all2_conv_all_nth same_or_filled_def)

text \<open>
  Claim C10, as the code has it. Let the base URL (less its trailing slash) and the path
  template be well-formed templates, let \<open>{n}\<close> occur in the path template, its first
  occurrence standing between the segments \<open>A\<close> and \<open>C\<close>, and not in the base URL. Let
  exactly one entry of the parameter list be a path parameter named \<open>n\<close> that the
  arguments supply, with value \<open>v\<close>, and let no supplied path parameter have \<open>}\<close> in its
  name. Then the URL built is the text of a template with as many segments, in which the
  first occurrence of \<open>{n}\<close> has become the percent-encoded text of \<open>v\<close>, no \<open>{n}\<close>
  stands before it, and every later occurrence of \<open>{n}\<close> is still the placeholder
  \<open>{n}\<close>, at its place, whatever other path parameters have been substituted.
\<close>

theorem first_occurrence_only:
  assumes "strip_trailing_slash (t_baseUrl tool) = render base"
    and "t_path tool = render (A @ Hole n # C)"
    and "well_formed base" and "well_formed (A @ Hole n # C)"
    and "Hole n \<notin> set base" and "Hole n \<notin> set A"
    and "filter (\<lambda>q. p_in q = ''path'' \<and> map_of args (p_name q) \<noteq> None \<and> p_name q = n)
           (t_parameters tool) = [p]"
    and "map_of args n = Some v"
    and "\<forall>q \<in> set (t_parameters tool).
           p_in q = ''path'' \<and> map_of args (p_name q) \<noteq> None \<longrightarrow> CHR ''}'' \<notin> set (p_name q)"
  shows "\<exists>base' A' C'.
           buildUrl tool args =
             render base' @ render A' @ encodeURIComponent (js_String v) @ render C'
         \<and> length base' = length base \<and> length A' = length A \<and> length C' = length C
         \<and> well_formed (base' @ A' @ C')
         \<and> Hole n \<notin> set base' \<and> Hole n \<notin> set A'
         \<and> (\<forall>j < length C. C ! j = Hole n \<longrightarrow> C' ! j = Hole n)"
proof -
  let ?r = "encodeURIComponent (js_String v)"
  let ?segs = "(base @ A) @ Hole n # C"
  have wf: "well_formed ?segs"
    using assms(3,4) by (simp add: well_formed_def)
  have br: "\<forall>q \<in> set (t_parameters tool). active args q \<longrightarrow> CHR ''}'' \<notin> set (p_name q)"
    using assms(9) by (simp add: active_def)
  have url: "strip_trailing_slash (t_baseUrl tool) @ t_path tool = render ?segs"
    by (simp add: assms(1,2) render_append)
  from loop_render[OF wf br]
  have b: "buildUrl tool args = render (seg_loop args ?segs (t_parameters tool))"
    and w: "well_formed (seg_loop args ?segs (t_parameters tool))"
    by (simp_all add: buildUrl_def url)
  have f: "filter (\<lambda>q. active args q \<and> p_name q = n) (t_parameters tool) = [p]"
    using assms(7) by (simp add: active_def conj_assoc)
  have h: "Hole n \<notin> set (base @ A)" using assms(5,6) by simp
  from seg_loop_first[OF f assms(8) h, of C]
  obtain P' C' where s: "seg_loop args ?segs (t_parameters tool) = P' @ Lit ?r # C'"
      and p: "list_all2 (same_or_filled n) (base @ A) P'"
      and c: "list_all2 (same_or_filled n) C C'"
    by blast
  from p obtain base' A' where P': "P' = base' @ A'" "length base' = length base"
      "length A' = length A"
    by (auto simp: list_all2_append1 dest: list_all2_lengthD)
  from w s P' have "well_formed (base' @ A' @ C')"
    by (simp add: well_formed_def)
  moreover from all2_no_hole[OF p h] P' have "Hole n \<notin> set base' \<and> Hole n \<notin> set A'"
    by simp
  ultimately show ?thesis
    using b s P' all2_later_holes[OF c]
    by (intro exI[of _ base'] exI[of _ A'] exI[of _ C']) (simp add: render_append)
qed

text \<open>
  The theorem at the path \<open>/a/{id}/b/{id}/c/{x}\<close> under the server URL
  \<open>https://{region}.example.com/\<close>, with \<open>id = 42\<close> and \<open>x = 7\<close>: the first \<open>{id}\<close> and
  \<open>{x}\<close> are substituted, the second \<open>{id}\<close> is left.
\<close>

theorem first_occurrence_only_witness:
  "buildUrl multi_tool [(''x'', JNum 7), (''id'', JNum 42)] =
     ''https://{region}.example.com/a/42/b/{id}/c/7''
   \<and> (\<exists>base' A' C'.
         buildUrl multi_tool [(''x'', JNum 7), (''id'', JNum 42)] =
           render base' @ render A' @ ''42'' @ render C'
       \<and> length base' = 3 \<and> length A' = 1 \<and> length C' = 4
       \<and> Hole ''id'' \<notin> set base' \<and> Hole ''id'' \<notin> set A'
       \<and> C' ! 1 = Hole ''id'')"
proof -
  let ?args = "[(''x'', JNum 7), (''id'', JNum 42)]"
  let ?base = "[Lit ''https://'', Hole ''region'', Lit ''.example.com'']"
  let ?A = "[Lit ''/a/'']"
  let ?C = "[Lit ''/b/'', Hole ''id'', Lit ''/c/'', Hole ''x'']"
  have h1: "strip_trailing_slash (t_baseUrl multi_tool) = render ?base"
    by (simp add: multi_tool_def twice_tool_def strip_trailing_slash_def)
  have h2: "t_path multi_tool = render (?A @ Hole ''id'' # ?C)"
    by (simp add: multi_tool_def twice_tool_def)
  have h3: "well_formed ?base" and h4: "well_formed (?A @ Hole ''id'' # ?C)"
    by (simp_all add: well_formed_def)
  have h5: "Hole ''id'' \<notin> set ?base" and h6: "Hole ''id'' \<notin> set ?A"
    by simp_all
  have h7: "filter (\<lambda>q. p_in q = ''path'' \<and> map_of ?args (p_name q) \<noteq> None \<and> p_name q = ''id'')
              (t_parameters multi_tool) = [id_param]"
    by (simp add: multi_tool_def twice_tool_def x_param_def id_param_def)
  have h8: "map_of ?args ''id'' = Some (JNum 42)" by simp
  have h9: "\<forall>q \<in> set (t_parameters multi_tool).
              p_in q = ''path'' \<and> map_of ?args (p_name q) \<noteq> None \<longrightarrow> CHR ''}'' \<notin> set (p_name q)"
    by (simp add: multi_tool_def twice_tool_def x_param_def id_param_def)
  have e: "encodeURIComponent (js_String (JNum 42)) = ''42''"
    by (simp add: encodeURIComponent_def encode_char_def unreserved_def isAlnum_def
        show_int_def show_nat.simps digit_char_def)
  have u: "buildUrl multi_tool ?args = ''https://{region}.example.com/a/42/b/{id}/c/7''"
    by (simp add: multi_tool_def twice_tool_def x_param_def id_param_def buildUrl_def
        buildUrl_step_def strip_trailing_slash_def encodeURIComponent_def encode_char_def
        unreserved_def isAlnum_def show_int_def show_nat.simps digit_char_def)
  from first_occurrence_only[OF h1 h2 h3 h4 h5 h6 h7 h8 h9]
  obtain base' A' C' where r:
      "buildUrl multi_tool ?args =
         render base' @ render A' @ encodeURIComponent (js_String (JNum 42)) @ render C'"
      "length base' = length ?base" "length A' = length ?A" "length C' = length ?C"
      "well_formed (base' @ A' @ C')"
      "Hole ''id'' \<notin> set base'" "Hole ''id'' \<notin> set A'"
      "\<forall>j < length ?C. ?C ! j = Hole ''id'' \<longrightarrow> C' ! j = Hole ''id''"
    by blast
  from r(8) have "C' ! 1 = Hole ''id''" by simp
  with r(1-4,6,7) e u show ?thesis
    by (intro conjI exI[of _ base'] exI[of _ A'] exI[of _ C']) simp_all
qed

text \<open>
  Claim C10 as stated fails on three counts. When the parameter is declared at the path
  level and again at the operation level, the compiled tool lists it twice, each entry
  substitutes one occurrence, and both occurrences of \<open>{id}\<close> are replaced. When another
  supplied path parameter has the name \<open>id}/b/{id\<close>, its placeholder covers both
  occurrences of \<open>{id}\<close> and its round removes them. When the path nests a placeholder,
  \<open>/{i{m}d}/a/{id}/b/{id}\<close>, and \<open>m\<close> is supplied as the empty text, the round of \<open>m\<close>
  makes a new \<open>{id}\<close> in front, and the first \<open>{id}\<close> of the template is not
  substituted.
\<close>

theorem first_occurrence_only_counterexample:
  "createToolFromOperation ''ns'' ''/a/{id}/b/{id}'' ''get'' twice_operation
       ''https://api.example.com'' (Some [raw_id_param]) = Some twice_declared_tool
   \<and> buildUrl twice_declared_tool [(''id'', JNum 42)] = ''https://api.example.com/a/42/b/42''
   \<and> buildUrl brace_tool [(''id}/b/{id'', JStr ''Z''), (''id'', JNum 42)] =
       ''https://api.example.com/a/Z''
   \<and> buildUrl nested_tool [(''m'', JStr []), (''id'', JNum 42)] =
       ''https://api.example.com/42/a/{id}/b/{id}''"
  by (simp add: createToolFromOperation_def twice_operation_def twice_declared_tool_def
      twice_tool_def brace_tool_def brace_param_def nested_tool_def m_param_def
      raw_id_param_def id_param_def generateToolName_def truthy_str_def
      truthy_json_def extractParameters_def toToolParameter_def or_undefined_def or_list_def
      toUpperCase_def upper_char_def buildUrl_def buildUrl_step_def strip_trailing_slash_def
      encodeURIComponent_def encode_char_def unreserved_def isAlnum_def show_int_def
      show_nat.simps digit_char_def)

end
